theory Spec2Isabelle
  imports Complex_Main "HOL-Library.Word"
begin

section \<open>CPTG\_Holo\_Blend: the closed-form holonomic trajectory generator\<close>

text \<open>
  Shallow embedding of \<^verbatim>\<open>src/libs/nav/src/tpspace/CPTG_Holo_Blend.cpp\<close>.

  Numbers. The parameters, the velocities, the times and the coordinates are modelled by
  \<^typ>\<open>real\<close>: arithmetic is exact, there is no rounding and no overflow. The travelled
  distances, and the time that \<^verbatim>\<open>getPathStepForDist\<close> solves from them, come out of the
  closed-form integral, whose logarithm can be taken at \<open>0\<close>; they are modelled by
  the type \<open>double\<close> below, the reals with the infinities and the NaN of IEEE 754
  and the arithmetic and the comparisons of IEEE 754 on them, exact on the finite
  values. Signed zeros are not distinguished: a zero divisor counts as \<open>+0\<close>. A
  \<^verbatim>\<open>uint16_t\<close> step is a \<^typ>\<open>16 word\<close>.

  Since the arithmetic is exact, a quantity that is \<open>0\<close> here can be a rounding residue
  in the machine: where the logarithm is taken at \<open>0\<close> its factor \<open>a c - b\<^sup>2/4\<close> is
  exactly \<open>0\<close> and the product is a NaN, while a machine residue in that factor makes
  it an infinity. The statements below that depend on it assume a finite value.

  Failures. \<^verbatim>\<open>ASSERT_\<close> throws; a function that can throw returns a sum
  whose left injection is the error. The conversion of an infinite quotient to an
  integer step has no defined result and is an error of its own. A \<^verbatim>\<open>bool\<close>
  function with an output parameter returns an option.
\<close>

subsection \<open>Data\<close>

datatype error = AssertionFailed | UndefinedConversion

record TTwist2D =
  vx :: real
  vy :: real
  omega :: real

text \<open>The fields \<^verbatim>\<open>x\<close>, \<^verbatim>\<open>y\<close>, \<^verbatim>\<open>phi\<close> of a pose, prefixed to leave the variable names free.\<close>

record TPose2D =
  pose_x :: real
  pose_y :: real
  pose_phi :: real

text \<open>
  The members of the class, and the three members of the base class
  \<^verbatim>\<open>CParameterizedTrajectoryGenerator\<close> that the code reads. The base class is not
  among the sources: its direction count, its normalization distance and its map from a
  direction index to an angle are parameters of the model.
\<close>

record CPTG_Holo_Blend =
  T_ramp :: real
  V_MAX :: real
  W_MAX :: real
  turningRadiusReference :: real
  curVelLocal :: TTwist2D
  m_alphaValuesCount :: "16 word"
  refDistance :: real
  index2alpha :: "nat \<Rightarrow> real"

definition PATH_TIME_STEP :: real where
  "PATH_TIME_STEP = 10 / 1000"

definition eps :: real where
  "eps = 1 / 100000"

text \<open>\<^verbatim>\<open>std::numeric_limits<double>::max()\<close>.\<close>

definition DBL_MAX :: real where
  "DBL_MAX = (2 - 1 / 2 ^ 52) * 2 ^ 1023"

text \<open>The sanity checks of \<^verbatim>\<open>initialize\<close>.\<close>

definition initialize :: "CPTG_Holo_Blend \<Rightarrow> error + unit" where
  "initialize cfg =
     (if \<not> T_ramp cfg > 0 then Inl AssertionFailed
      else if \<not> V_MAX cfg > 0 then Inl AssertionFailed
      else if \<not> W_MAX cfg > 0 then Inl AssertionFailed
      else if \<not> m_alphaValuesCount cfg > 0 then Inl AssertionFailed
      else Inr ())"

definition updateCurrentRobotVel :: "CPTG_Holo_Blend \<Rightarrow> TTwist2D \<Rightarrow> CPTG_Holo_Blend" where
  "updateCurrentRobotVel cfg v = cfg\<lparr>curVelLocal := v\<rparr>"

subsection \<open>Doubles with infinities and NaN\<close>

datatype double = Fin real | PInf | NInf | NaN

instantiation double :: "{plus, uminus, minus, times, inverse, abs, ord}"
begin

fun plus_double :: "double \<Rightarrow> double \<Rightarrow> double" where
  "plus_double NaN w = NaN"
| "plus_double v NaN = NaN"
| "plus_double (Fin v) (Fin w) = Fin (v + w)"
| "plus_double PInf NInf = NaN"
| "plus_double NInf PInf = NaN"
| "plus_double PInf w = PInf"
| "plus_double v PInf = PInf"
| "plus_double NInf w = NInf"
| "plus_double v NInf = NInf"

fun uminus_double :: "double \<Rightarrow> double" where
  "uminus_double (Fin v) = Fin (- v)"
| "uminus_double PInf = NInf"
| "uminus_double NInf = PInf"
| "uminus_double NaN = NaN"

definition minus_double :: "double \<Rightarrow> double \<Rightarrow> double" where
  "minus_double v w = v + (- w)"

fun times_double :: "double \<Rightarrow> double \<Rightarrow> double" where
  "times_double NaN w = NaN"
| "times_double v NaN = NaN"
| "times_double (Fin v) (Fin w) = Fin (v * w)"
| "times_double (Fin v) PInf = (if 0 < v then PInf else if v < 0 then NInf else NaN)"
| "times_double (Fin v) NInf = (if 0 < v then NInf else if v < 0 then PInf else NaN)"
| "times_double PInf (Fin w) = (if 0 < w then PInf else if w < 0 then NInf else NaN)"
| "times_double NInf (Fin w) = (if 0 < w then NInf else if w < 0 then PInf else NaN)"
| "times_double PInf PInf = PInf"
| "times_double PInf NInf = NInf"
| "times_double NInf PInf = NInf"
| "times_double NInf NInf = PInf"

fun divide_double :: "double \<Rightarrow> double \<Rightarrow> double" where
  "divide_double NaN w = NaN"
| "divide_double v NaN = NaN"
| "divide_double (Fin v) (Fin w) =
     (if w \<noteq> 0 then Fin (v / w) else if 0 < v then PInf else if v < 0 then NInf else NaN)"
| "divide_double (Fin v) PInf = Fin 0"
| "divide_double (Fin v) NInf = Fin 0"
| "divide_double PInf (Fin w) = (if 0 \<le> w then PInf else NInf)"
| "divide_double NInf (Fin w) = (if 0 \<le> w then NInf else PInf)"
| "divide_double PInf PInf = NaN"
| "divide_double PInf NInf = NaN"
| "divide_double NInf PInf = NaN"
| "divide_double NInf NInf = NaN"

fun inverse_double :: "double \<Rightarrow> double" where
  "inverse_double (Fin v) = (if v \<noteq> 0 then Fin (1 / v) else PInf)"
| "inverse_double PInf = Fin 0"
| "inverse_double NInf = Fin 0"
| "inverse_double NaN = NaN"

fun abs_double :: "double \<Rightarrow> double" where
  "abs_double (Fin v) = Fin \<bar>v\<bar>"
| "abs_double PInf = PInf"
| "abs_double NInf = PInf"
| "abs_double NaN = NaN"

fun less_eq_double :: "double \<Rightarrow> double \<Rightarrow> bool" where
  "less_eq_double NaN w = False"
| "less_eq_double v NaN = False"
| "less_eq_double (Fin v) (Fin w) = (v \<le> w)"
| "less_eq_double NInf w = True"
| "less_eq_double v PInf = True"
| "less_eq_double PInf w = False"
| "less_eq_double v NInf = False"

fun less_double :: "double \<Rightarrow> double \<Rightarrow> bool" where
  "less_double NaN w = False"
| "less_double v NaN = False"
| "less_double (Fin v) (Fin w) = (v < w)"
| "less_double PInf w = False"
| "less_double v NInf = False"
| "less_double NInf w = True"
| "less_double v PInf = True"

instance ..

end

text \<open>\<^verbatim>\<open>sqrt\<close>: a NaN at a negative argument.\<close>

fun c_sqrt :: "double \<Rightarrow> double" where
  "c_sqrt (Fin v) = (if 0 \<le> v then Fin (sqrt v) else NaN)"
| "c_sqrt PInf = PInf"
| "c_sqrt NInf = NaN"
| "c_sqrt NaN = NaN"

text \<open>\<^verbatim>\<open>log\<close>: minus infinity at \<open>0\<close>, a NaN at a negative argument.\<close>

fun c_log :: "double \<Rightarrow> double" where
  "c_log (Fin v) = (if 0 < v then Fin (ln v) else if v = 0 then NInf else NaN)"
| "c_log PInf = PInf"
| "c_log NInf = NaN"
| "c_log NaN = NaN"

text \<open>
  \<^verbatim>\<open>pow\<close> with a positive exponent that is not an integer, as the source has it
  (\<open>3/2\<close> and \<open>1/4\<close>): a NaN at a negative finite base.
\<close>

fun c_pow :: "double \<Rightarrow> real \<Rightarrow> double" where
  "c_pow (Fin v) e = (if 0 \<le> v then Fin (v powr e) else NaN)"
| "c_pow PInf e = PInf"
| "c_pow NInf e = PInf"
| "c_pow NaN e = NaN"

subsection \<open>The translational distance integrator\<close>

text \<open>
  The definite integral of \<^verbatim>\<open>sqrt(a*t^2+b*t+c)\<close> over \<^verbatim>\<open>[0,t]\<close>, the expressions
  \<^verbatim>\<open>int_t\<close> and \<^verbatim>\<open>int_t0\<close> of the source operation by operation. The time is a
  \<open>double\<close>: the Newton iteration passes its iterate.
\<close>

definition calc_trans_distance_t_below_Tramp_abc ::
    "double \<Rightarrow> real \<Rightarrow> real \<Rightarrow> real \<Rightarrow> double" where
  "calc_trans_distance_t_below_Tramp_abc t a b c =
     (let int_t = (t * Fin (1 / 2) + (Fin b * Fin (1 / 4)) / Fin a)
                    * c_sqrt (Fin c + Fin b * t + Fin a * (t * t))
                  + Fin 1 / c_pow (Fin a) (3 / 2)
                    * c_log (Fin 1 / c_sqrt (Fin a) * (Fin b * Fin (1 / 2) + Fin a * t)
                             + c_sqrt (Fin c + Fin b * t + Fin a * (t * t)))
                    * (Fin a * Fin c - (Fin b * Fin b) * Fin (1 / 4)) * Fin (1 / 2);
          int_t0 = (Fin b * c_sqrt (Fin c) * Fin (1 / 4)) / Fin a
                  + Fin 1 / c_pow (Fin a) (3 / 2)
                    * c_log (Fin 1 / c_sqrt (Fin a)
                             * (Fin b + c_sqrt (Fin a) * c_sqrt (Fin c) * Fin 2) * Fin (1 / 2))
                    * (Fin a * Fin c - (Fin b * Fin b) * Fin (1 / 4)) * Fin (1 / 2)
      in int_t - int_t0)"

definition calc_trans_distance_t_below_Tramp ::
    "real \<Rightarrow> real \<Rightarrow> real \<Rightarrow> real \<Rightarrow> real \<Rightarrow> double" where
  "calc_trans_distance_t_below_Tramp k2 k4 vxi vyi t =
     (let c = vxi * vxi + vyi * vyi in
      if \<bar>k2\<bar> > eps \<or> \<bar>k4\<bar> > eps then
        (let a = (k2 * k2) * 4 + (k4 * k4) * 4;
             b = k2 * vxi * 4 + k4 * vyi * 4
         in if \<bar>b\<bar> < eps \<and> \<bar>c\<bar> < eps then Fin (sqrt a * (t * t) * (1 / 2))
            else calc_trans_distance_t_below_Tramp_abc (Fin t) a b c)
      else Fin (sqrt c * t))"

subsection \<open>The forward path evaluator\<close>

definition getPathPose :: "CPTG_Holo_Blend \<Rightarrow> nat \<Rightarrow> 16 word \<Rightarrow> TPose2D" where
  "getPathPose cfg k step =
     (let t = PATH_TIME_STEP * real (unat step);
          dir = index2alpha cfg k;
          TR2 = 1 / (2 * T_ramp cfg);
          vxf = V_MAX cfg * cos dir; vyf = V_MAX cfg * sin dir;
          vxi = vx (curVelLocal cfg); vyi = vy (curVelLocal cfg);
          px = (if t < T_ramp cfg then vxi * t + t * t * TR2 * (vxf - vxi)
                else T_ramp cfg * (1 / 2) * (vxi + vxf) + (t - T_ramp cfg) * vxf);
          py = (if t < T_ramp cfg then vyi * t + t * t * TR2 * (vyf - vyi)
                else T_ramp cfg * (1 / 2) * (vyi + vyf) + (t - T_ramp cfg) * vyf);
          T_rot = \<bar>dir\<bar> / W_MAX cfg
      in \<lparr>pose_x = px, pose_y = py, pose_phi = (if t < T_rot then t * dir / T_rot else dir)\<rparr>)"

definition getPathDist :: "CPTG_Holo_Blend \<Rightarrow> nat \<Rightarrow> 16 word \<Rightarrow> double" where
  "getPathDist cfg k step =
     (let t = PATH_TIME_STEP * real (unat step);
          dir = index2alpha cfg k;
          TR2 = 1 / (2 * T_ramp cfg);
          vxf = V_MAX cfg * cos dir; vyf = V_MAX cfg * sin dir;
          vxi = vx (curVelLocal cfg); vyi = vy (curVelLocal cfg);
          k2 = (vxf - vxi) * TR2;
          k4 = (vyf - vyi) * TR2
      in if t < T_ramp cfg then calc_trans_distance_t_below_Tramp k2 k4 vxi vyi t
         else Fin ((t - T_ramp cfg) * V_MAX cfg)
                + calc_trans_distance_t_below_Tramp k2 k4 vxi vyi (T_ramp cfg))"

subsection \<open>The distance-to-step inverter\<close>

text \<open>The target distance \<^verbatim>\<open>dist\<close> of the source is written \<open>dst\<close>.\<close>

text \<open>
  Modelled from the spec: \<^verbatim>\<open>mrpt::utils::round\<close>, whose header \<^verbatim>\<open>round.h\<close> is not
  among the sources. The spec converts a time to a step by \<^verbatim>\<open>round(t / quantum)\<close>, the
  nearest integer.
\<close>

definition mrpt_round :: "real \<Rightarrow> int" where
  "mrpt_round v = round v"

text \<open>
  The body of the Newton loop: the residual \<^verbatim>\<open>err\<close>, the derivative \<^verbatim>\<open>diff\<close> and
  the update of \<^verbatim>\<open>t_solved\<close>.
\<close>

definition newton_err :: "real \<Rightarrow> real \<Rightarrow> real \<Rightarrow> real \<Rightarrow> double \<Rightarrow> double" where
  "newton_err a b c dst t_solved = calc_trans_distance_t_below_Tramp_abc t_solved a b c - Fin dst"

definition newton_diff :: "real \<Rightarrow> real \<Rightarrow> real \<Rightarrow> double \<Rightarrow> double" where
  "newton_diff a b c t_solved = c_sqrt (Fin a * t_solved * t_solved + Fin b * t_solved + Fin c)"

definition newton_update :: "real \<Rightarrow> real \<Rightarrow> real \<Rightarrow> real \<Rightarrow> double \<Rightarrow> double" where
  "newton_update a b c dst t_solved =
     t_solved - newton_err a b c dst t_solved / newton_diff a b c t_solved"

text \<open>
  The loop \<^verbatim>\<open>for (iters=0; iters<10; iters++)\<close>, the first argument counting the passes
  that are left.
\<close>

fun newton_loop ::
    "nat \<Rightarrow> real \<Rightarrow> real \<Rightarrow> real \<Rightarrow> real \<Rightarrow> double \<Rightarrow> error + double" where
  "newton_loop 0 a b c dst t_solved = Inr t_solved"
| "newton_loop (Suc n) a b c dst t_solved =
     (if \<bar>newton_err a b c dst t_solved\<bar> < Fin (1 / 1000) then Inr t_solved
      else if \<not> (\<bar>newton_diff a b c t_solved\<bar> > Fin (1 / 10 ^ 14)) then Inl AssertionFailed
      else newton_loop n a b c dst (newton_update a b c dst t_solved))"

text \<open>The time \<^verbatim>\<open>t_solved\<close> that \<^verbatim>\<open>getPathStepForDist\<close> computes before it rounds.\<close>

definition t_solved_for_dist :: "CPTG_Holo_Blend \<Rightarrow> nat \<Rightarrow> real \<Rightarrow> error + double" where
  "t_solved_for_dist cfg k dst =
     (let dir = index2alpha cfg k;
          TR2 = 1 / (2 * T_ramp cfg);
          vxf = V_MAX cfg * cos dir; vyf = V_MAX cfg * sin dir;
          vxi = vx (curVelLocal cfg); vyi = vy (curVelLocal cfg);
          k2 = (vxf - vxi) * TR2;
          k4 = (vyf - vyi) * TR2;
          dist_trans_T_ramp = calc_trans_distance_t_below_Tramp k2 k4 vxi vyi (T_ramp cfg)
      in if Fin dst \<ge> dist_trans_T_ramp
         then Inr (Fin (T_ramp cfg) + (Fin dst - dist_trans_T_ramp) / Fin (V_MAX cfg))
         else if \<bar>k2\<bar> < eps \<and> \<bar>k4\<bar> < eps
         then Inr (Fin dst / Fin (V_MAX cfg))
         else
           (let a = (k2 * k2) * 4 + (k4 * k4) * 4;
                b = k2 * vxi * 4 + k4 * vyi * 4;
                c = vxi * vxi + vyi * vyi
            in if \<bar>b\<bar> < eps \<and> \<bar>c\<bar> < eps
               then Inr (Fin (sqrt 2) * Fin 1 / c_pow (Fin a) (1 / 4) * c_sqrt (Fin dst))
               else newton_loop 10 a b c dst (Fin (T_ramp cfg * (6 / 10)))))"

text \<open>
  \<^verbatim>\<open>getPathStepForDist\<close>: \<^term>\<open>Inr None\<close> is the result \<^verbatim>\<open>false\<close>. The rounded
  quotient is an \<^verbatim>\<open>int\<close>; its assignment to the \<^verbatim>\<open>uint16_t\<close> output reduces it
  modulo \<open>2^16\<close>. An infinite \<^verbatim>\<open>t_solved\<close> passes the test \<^verbatim>\<open>t_solved>=0\<close> and has
  no rounded quotient.
\<close>

definition getPathStepForDist ::
    "CPTG_Holo_Blend \<Rightarrow> nat \<Rightarrow> real \<Rightarrow> error + 16 word option" where
  "getPathStepForDist cfg k dst =
     (case t_solved_for_dist cfg k dst of
        Inl e \<Rightarrow> Inl e
      | Inr t_solved \<Rightarrow>
          if t_solved \<ge> Fin 0 then
            (case t_solved / Fin PATH_TIME_STEP of
               Fin q \<Rightarrow> Inr (Some (word_of_int (mrpt_round q)))
             | _ \<Rightarrow> Inl UndefinedConversion)
          else Inr None)"

subsection \<open>The inverse workspace mapper\<close>

text \<open>The two tolerances of \<^verbatim>\<open>inverseMap_WS2TP\<close>.\<close>

definition TIME_MISMATCH_TOLERANCE :: "CPTG_Holo_Blend \<Rightarrow> real \<Rightarrow> real \<Rightarrow> real" where
  "TIME_MISMATCH_TOLERANCE cfg x y =
     2 * ((2 * pi / real (unat (m_alphaValuesCount cfg))) * sqrt (x * x + y * y)) / V_MAX cfg"

definition eps_distance :: "CPTG_Holo_Blend \<Rightarrow> real \<Rightarrow> real \<Rightarrow> real" where
  "eps_distance cfg x y =
     (21 / 10) * ((2 * pi / real (unat (m_alphaValuesCount cfg))) * sqrt (x * x + y * y))"

text \<open>
  The attempt to solve one axis for \<^verbatim>\<open>t < T_ramp\<close>. The source has this block twice, on
  \<^verbatim>\<open>(vxf, vxi, x)\<close> and on \<^verbatim>\<open>(vyf, vyi, y)\<close>. The result is the pair
  \<^verbatim>\<open>(tx_any, tx_solve)\<close>, or \<^term>\<open>None\<close> for the \<^verbatim>\<open>continue\<close> on a negative
  discriminant. Where the source sets \<^verbatim>\<open>tx_any\<close> it leaves \<^verbatim>\<open>tx_solve\<close>
  unassigned; the model puts \<open>0\<close> there, which nothing reads, since every later use
  of \<^verbatim>\<open>tx_solve\<close> is guarded by \<^verbatim>\<open>!tx_any\<close>.
  The tests \<^verbatim>\<open>tx_solve==tx_solve\<close> and \<^verbatim>\<open>isFinite(tx_solve)\<close> of the source hold
  of every real number and are left out.
\<close>

definition axis_below_Tramp ::
    "real \<Rightarrow> real \<Rightarrow> real \<Rightarrow> real \<Rightarrow> real \<Rightarrow> (bool \<times> real) option" where
  "axis_below_Tramp Tr epsd vf vi p =
     (if \<bar>vf - vi\<bar> < eps then
        (if \<bar>vi\<bar> < eps then (if \<bar>p\<bar> < epsd then Some (True, 0) else Some (False, - 1))
         else Some (False, p / vi))
      else
        (let discr = (vf * p * 2 - vi * p * 2 + Tr * (vi * vi)) / Tr in
         if discr < 0 then None
         else
           (let sqr = sqrt discr;
                solved0 = - (Tr * (vi + sqr)) / (vf - vi);
                solved1 = - (Tr * (vi - sqr)) / (vf - vi);
                solve = (if solved0 > 0 then solved0 else solved1)
            in if \<not> (solve \<ge> 0 \<and> solve \<le> Tr) then Some (False, - 1)
               else Some (False, solve))))"

text \<open>The attempt to solve one axis for \<^verbatim>\<open>t > T_ramp\<close>, again twice in the source.\<close>

definition axis_above_Tramp ::
    "real \<Rightarrow> real \<Rightarrow> real \<Rightarrow> real \<Rightarrow> real \<Rightarrow> real \<Rightarrow> bool \<times> real \<Rightarrow> bool \<times> real" where
  "axis_above_Tramp Tr TR2 epsd vf vi p s =
     (if \<bar>vf\<bar> < eps then
        (let final = vi * Tr + Tr * Tr * TR2 * (vf - vi) in
         if \<bar>p - final\<bar> < epsd then (True, snd s) else (fst s, - 1))
      else (fst s, (p - Tr * (vf + vi) * (1 / 2)) / vf))"

text \<open>
  The body of the loop over the directions up to the final solution \<^verbatim>\<open>t_solve\<close>, as
  a function of the two constants \<^verbatim>\<open>eps_distance\<close> and
  \<^verbatim>\<open>TIME_MISMATCH_TOLERANCE\<close> that the source computes before the loop;
  \<^term>\<open>None\<close> is a \<^verbatim>\<open>continue\<close>.
\<close>

definition t_solve_with ::
    "real \<Rightarrow> real \<Rightarrow> CPTG_Holo_Blend \<Rightarrow> real \<Rightarrow> real \<Rightarrow> nat \<Rightarrow> real option" where
  "t_solve_with epsd tol cfg x y k =
     (let TR2 = 1 / (2 * T_ramp cfg);
          vxi = vx (curVelLocal cfg); vyi = vy (curVelLocal cfg);
          dir = index2alpha cfg k;
          vxf = V_MAX cfg * cos dir; vyf = V_MAX cfg * sin dir
      in case axis_below_Tramp (T_ramp cfg) epsd vxf vxi x of
           None \<Rightarrow> None
         | Some tx \<Rightarrow>
          (case axis_below_Tramp (T_ramp cfg) epsd vyf vyi y of
             None \<Rightarrow> None
           | Some ty \<Rightarrow>
              (let good = (fst tx \<or> (snd tx \<ge> 0 \<and> snd tx \<le> T_ramp cfg)) \<and>
                          (fst ty \<or> (snd ty \<ge> 0 \<and> snd ty \<le> T_ramp cfg));
                   tx = (if good then tx
                         else axis_above_Tramp (T_ramp cfg) TR2 epsd vxf vxi x tx);
                   ty = (if good then ty
                         else axis_above_Tramp (T_ramp cfg) TR2 epsd vyf vyi y ty)
               in if \<not> fst tx \<and> \<not> fst ty then
                    (if \<bar>snd tx - snd ty\<bar> > tol then None
                     else Some (snd tx))
                  else if fst tx \<and> fst ty then Some (sqrt (x * x + y * y) / V_MAX cfg)
                  else if \<not> fst tx \<and> fst ty then Some (snd tx)
                  else Some (snd ty))))"

text \<open>The loop body with the two constants of the source.\<close>

definition t_solve_direction :: "CPTG_Holo_Blend \<Rightarrow> real \<Rightarrow> real \<Rightarrow> nat \<Rightarrow> real option" where
  "t_solve_direction cfg x y k =
     t_solve_with (eps_distance cfg x y) (TIME_MISMATCH_TOLERANCE cfg x y) cfg x y k"

text \<open>The travelled distance \<^verbatim>\<open>dist_trans\<close> of direction \<^verbatim>\<open>k\<close> at the time \<^verbatim>\<open>t_solve\<close>.\<close>

definition dist_trans_direction :: "CPTG_Holo_Blend \<Rightarrow> nat \<Rightarrow> real \<Rightarrow> double" where
  "dist_trans_direction cfg k t_solve =
     (let TR2 = 1 / (2 * T_ramp cfg);
          vxi = vx (curVelLocal cfg); vyi = vy (curVelLocal cfg);
          dir = index2alpha cfg k;
          vxf = V_MAX cfg * cos dir; vyf = V_MAX cfg * sin dir;
          k2 = (vxf - vxi) * TR2;
          k4 = (vyf - vyi) * TR2
      in if t_solve < T_ramp cfg then calc_trans_distance_t_below_Tramp k2 k4 vxi vyi t_solve
         else Fin ((t_solve - T_ramp cfg) * V_MAX cfg)
                + calc_trans_distance_t_below_Tramp k2 k4 vxi vyi (T_ramp cfg))"

text \<open>
  The candidate of direction \<^verbatim>\<open>k\<close>: the distance \<^verbatim>\<open>dist_trans\<close> that reaches the
  comparison with \<^verbatim>\<open>found_min_dist\<close>, when \<^verbatim>\<open>t_solve\<close> exists and is not negative.
\<close>

definition candidate :: "CPTG_Holo_Blend \<Rightarrow> real \<Rightarrow> real \<Rightarrow> nat \<Rightarrow> double option" where
  "candidate cfg x y k =
     (case t_solve_direction cfg x y k of
        None \<Rightarrow> None
      | Some t_solve \<Rightarrow> if t_solve \<ge> 0 then Some (dist_trans_direction cfg k t_solve) else None)"

text \<open>
  One pass of the loop on the state \<^verbatim>\<open>(found_min_dist, found_k)\<close>. A NaN distance
  fails the comparison \<^verbatim>\<open>dist_trans<found_min_dist\<close>; minus infinity passes it.
\<close>

definition scan_direction ::
    "CPTG_Holo_Blend \<Rightarrow> real \<Rightarrow> real \<Rightarrow> double \<times> int \<Rightarrow> nat \<Rightarrow> double \<times> int" where
  "scan_direction cfg x y found k =
     (case candidate cfg x y k of
        None \<Rightarrow> found
      | Some dist_trans \<Rightarrow> if dist_trans < fst found then (dist_trans, int k) else found)"

text \<open>
  \<^verbatim>\<open>inverseMap_WS2TP\<close>. The parameter \<^verbatim>\<open>tolerance_dist\<close>, which the source marks
  unused, is left out. \<^term>\<open>Inr None\<close> is the result \<^verbatim>\<open>false\<close>, and
  \<^term>\<open>Inr (Some (k, d))\<close> the result \<^verbatim>\<open>true\<close> with the outputs
  \<^verbatim>\<open>out_k\<close> and \<^verbatim>\<open>out_d\<close>.
\<close>

definition inverseMap_WS2TP ::
    "CPTG_Holo_Blend \<Rightarrow> real \<Rightarrow> real \<Rightarrow> error + (int \<times> double) option" where
  "inverseMap_WS2TP cfg x y =
     (if \<not> (x \<noteq> 0 \<or> y \<noteq> 0) then Inl AssertionFailed
      else
        (let found = foldl (scan_direction cfg x y) (Fin DBL_MAX, - 1)
                       [0 ..< unat (m_alphaValuesCount cfg)]
         in if snd found \<ge> 0
            then Inr (Some (snd found, fst found / Fin (refDistance cfg)))
            else Inr None))"

definition PTG_IsIntoDomain :: "CPTG_Holo_Blend \<Rightarrow> real \<Rightarrow> real \<Rightarrow> error + bool" where
  "PTG_IsIntoDomain cfg x y =
     (case inverseMap_WS2TP cfg x y of
        Inl e \<Rightarrow> Inl e
      | Inr None \<Rightarrow> Inr False
      | Inr (Some kd) \<Rightarrow> Inr True)"

subsection \<open>Configurations for concrete inputs\<close>

text \<open>
  A generator with one direction, of angle \<open>dir\<close>, the robot moving along the \<open>x\<close> axis
  at \<open>vxi\<close>: ramp duration \<open>Tr\<close>, maximum linear speed \<open>V\<close>, maximum angular speed
  and normalization distance \<open>1\<close>.
\<close>

definition test_cfg :: "real \<Rightarrow> real \<Rightarrow> real \<Rightarrow> real \<Rightarrow> CPTG_Holo_Blend" where
  "test_cfg Tr V vxi dir =
     \<lparr>T_ramp = Tr, V_MAX = V, W_MAX = 1, turningRadiusReference = 3 / 10,
      curVelLocal = \<lparr>vx = vxi, vy = 0, omega = 0\<rparr>,
      m_alphaValuesCount = 1, refDistance = 1, index2alpha = (\<lambda>k. dir)\<rparr>"

text \<open>
  Two directions, of angles \<open>- pi/2\<close> and \<open>pi/2\<close>, ramp duration \<open>1\<close>, maximum
  speed \<open>1/2\<close>, the robot moving at \<open>1/2\<close> along the \<open>y\<close> axis: direction \<open>1\<close>
  keeps the velocity of the robot, direction \<open>0\<close> reverses it.
\<close>

definition opposite_cfg :: CPTG_Holo_Blend where
  "opposite_cfg =
     \<lparr>T_ramp = 1, V_MAX = 1 / 2, W_MAX = 1, turningRadiusReference = 3 / 10,
      curVelLocal = \<lparr>vx = 0, vy = 1 / 2, omega = 0\<rparr>,
      m_alphaValuesCount = 2, refDistance = 1,
      index2alpha = (\<lambda>k. if k = 0 then - (pi / 2) else pi / 2)\<rparr>"

subsection \<open>The tolerances in the words of the specification\<close>

text \<open>
  The specification gives the position-match tolerance of \<^verbatim>\<open>inverseMap_WS2TP\<close> as
  \<open>2 * (2 * pi / directionCount) * \<bar>(x, y)\<bar>\<close> and the time-mismatch tolerance as the
  double of it. The two definitions follow these words, to be compared with
  \<^verbatim>\<open>eps_distance\<close> and \<^verbatim>\<open>TIME_MISMATCH_TOLERANCE\<close> of the source.
\<close>

definition spec_eps_distance :: "CPTG_Holo_Blend \<Rightarrow> real \<Rightarrow> real \<Rightarrow> real" where
  "spec_eps_distance cfg x y =
     2 * (2 * pi / real (unat (m_alphaValuesCount cfg))) * sqrt (x * x + y * y)"

definition spec_TIME_MISMATCH_TOLERANCE :: "CPTG_Holo_Blend \<Rightarrow> real \<Rightarrow> real \<Rightarrow> real" where
  "spec_TIME_MISMATCH_TOLERANCE cfg x y = 2 * spec_eps_distance cfg x y"

subsection \<open>Definitions for the statements and the proofs\<close>

text \<open>
  The coefficients \<^verbatim>\<open>a\<close>, \<^verbatim>\<open>b\<close>, \<^verbatim>\<open>c\<close> of the squared speed
  \<^verbatim>\<open>a*t^2 + b*t + c\<close> of direction \<^verbatim>\<open>k\<close>, as \<^verbatim>\<open>getPathStepForDist\<close> computes them.
\<close>

definition ramp_coefficients :: "CPTG_Holo_Blend \<Rightarrow> nat \<Rightarrow> real \<times> real \<times> real" where
  "ramp_coefficients cfg k =
     (let dir = index2alpha cfg k;
          TR2 = 1 / (2 * T_ramp cfg);
          vxf = V_MAX cfg * cos dir; vyf = V_MAX cfg * sin dir;
          vxi = vx (curVelLocal cfg); vyi = vy (curVelLocal cfg);
          k2 = (vxf - vxi) * TR2;
          k4 = (vyf - vyi) * TR2
      in ((k2 * k2) * 4 + (k4 * k4) * 4, k2 * vxi * 4 + k4 * vyi * 4, vxi * vxi + vyi * vyi))"

text \<open>
  The three tests of \<^verbatim>\<open>getPathStepForDist\<close> that lead to the Newton iteration: the
  target distance is not at or beyond the distance at the end of the ramp, the velocity
  changes, and the robot does not start at rest.
\<close>

definition newton_branch :: "CPTG_Holo_Blend \<Rightarrow> nat \<Rightarrow> real \<Rightarrow> bool" where
  "newton_branch cfg k dst =
     (let dir = index2alpha cfg k;
          TR2 = 1 / (2 * T_ramp cfg);
          vxf = V_MAX cfg * cos dir; vyf = V_MAX cfg * sin dir;
          vxi = vx (curVelLocal cfg); vyi = vy (curVelLocal cfg);
          k2 = (vxf - vxi) * TR2;
          k4 = (vyf - vyi) * TR2;
          b = k2 * vxi * 4 + k4 * vyi * 4;
          c = vxi * vxi + vyi * vyi
      in \<not> (Fin dst \<ge> calc_trans_distance_t_below_Tramp k2 k4 vxi vyi (T_ramp cfg)) \<and>
         \<not> (\<bar>k2\<bar> < eps \<and> \<bar>k4\<bar> < eps) \<and>
         \<not> (\<bar>b\<bar> < eps \<and> \<bar>c\<bar> < eps))"

text \<open>
  The indefinite integral \<^verbatim>\<open>int_t\<close> of \<^verbatim>\<open>calc_trans_distance_t_below_Tramp_abc\<close> over
  the reals, as a function of the time.
\<close>

definition int_t_abc :: "real \<Rightarrow> real \<Rightarrow> real \<Rightarrow> real \<Rightarrow> real" where
  "int_t_abc a b c t =
     (t * (1 / 2) + (b * (1 / 4)) / a) * sqrt (c + b * t + a * (t * t))
       + 1 / (a powr (3 / 2))
         * ln (1 / sqrt a * (b * (1 / 2) + a * t) + sqrt (c + b * t + a * (t * t)))
         * (a * c - (b * b) * (1 / 4)) * (1 / 2)"


section \<open>Auxiliary facts\<close>

subsection \<open>Squares and square roots\<close>

lemma square_eq_nonneg:
  fixes v w :: real
  assumes "v * v = w * w" and "0 \<le> v"
  shows "v = \<bar>w\<bar>"
proof -
  from assms(1) have "v = w \<or> v = - w" by (simp only: square_eq_iff)
  then show ?thesis using assms(2) by auto
qed

lemma square_less_nonneg:
  fixes v w :: real
  assumes "v * v < w * w" and "0 \<le> w"
  shows "- v < w"
proof (rule ccontr)
  assume "\<not> - v < w"
  then have le: "w \<le> - v" by simp
  have "0 \<le> - v" using assms(2) le by linarith
  with le assms(2) have "w * w \<le> (- v) * (- v)" by (intro mult_mono) simp_all
  then have "w * w \<le> v * v" by (simp only: minus_mult_minus)
  then show False using assms(1) by linarith
qed

lemma sqrt_square_eq:
  fixes v w :: real
  assumes "w = v * v" and "0 \<le> v"
  shows "sqrt w = v"
  using assms by (simp add: real_sqrt_mult)

lemma powr_three_halves:
  fixes a :: real
  assumes "0 < a"
  shows "a powr (3 / 2) = a * sqrt a"
proof -
  have "a powr (3 / 2) = a powr (1 + 1 / 2)" by simp
  also have "\<dots> = a powr 1 * a powr (1 / 2)" by (rule powr_add)
  also have "\<dots> = a * sqrt a" using assms by (simp add: powr_half_sqrt)
  finally show ?thesis .
qed

lemma ratio_cancel:
  fixes P r s :: real
  assumes "0 < P" "0 < r" "0 < s"
  shows "1 / (P / (2 * r)) * (P / (2 * s)) = r / s"
  using assms by (simp add: field_simps)

subsection \<open>Two bounds of pi\<close>

text \<open>
  From the Maclaurin polynomial of the sine of degree nine: the sine is negative at
  \<open>13/4\<close> and positive at \<open>65/21\<close>.
\<close>

lemma sin_poly10:
  fixes x :: real
  shows "(\<Sum>m<10. sin_coeff m * x ^ m)
           = x - x ^ 3 / 6 + x ^ 5 / 120 - x ^ 7 / 5040 + x ^ 9 / 362880"
proof -
  have s: "{..<10::nat} = {0, 1, 2, 3, 4, 5, 6, 7, 8, 9}" by auto
  show ?thesis unfolding s by (simp add: sin_coeff_def fact_numeral)
qed

lemma pi_le_13_4: "pi \<le> 13 / 4"
proof (rule ccontr)
  assume "\<not> pi \<le> 13 / 4"
  then have "0 < sin (13 / 4 :: real)" by (intro sin_gt_zero) simp_all
  moreover have "\<bar>sin (13 / 4 :: real) - (\<Sum>m<10. sin_coeff m * (13 / 4) ^ m)\<bar>
                   \<le> inverse (fact 10) * \<bar>13 / 4 :: real\<bar> ^ 10"
    by (rule Maclaurin_sin_bound)
  ultimately show False
    unfolding sin_poly10 by (simp add: fact_numeral power_divide abs_if split: if_splits)
qed

lemma pi_gt_65_21: "65 / 21 < pi"
proof (rule ccontr)
  assume "\<not> 65 / 21 < pi"
  then have "pi \<le> 65 / 21" by simp
  moreover have "(65 / 21 :: real) < 2 * pi" using pi_ge_two by simp
  ultimately have "sin (65 / 21 :: real) \<le> 0" by (rule sin_le_zero)
  moreover have "\<bar>sin (65 / 21 :: real) - (\<Sum>m<10. sin_coeff m * (65 / 21) ^ m)\<bar>
                   \<le> inverse (fact 10) * \<bar>65 / 21 :: real\<bar> ^ 10"
    by (rule Maclaurin_sin_bound)
  ultimately show False
    unfolding sin_poly10 by (simp add: fact_numeral power_divide abs_if split: if_splits)
qed

subsection \<open>Doubles\<close>

text \<open>
  A finite result of an operation has finite operands; a NaN operand gives a NaN.
\<close>

lemma fin_plusD:
  fixes v w :: double
  assumes "v + w = Fin r"
  shows "\<exists>p q. v = Fin p \<and> w = Fin q"
  using assms by (cases v; cases w) simp_all

lemma fin_minusD:
  fixes v w :: double
  assumes "v - w = Fin r"
  shows "\<exists>p q. v = Fin p \<and> w = Fin q"
  using assms by (cases v; cases w) (simp_all add: minus_double_def)

lemma fin_timesD:
  fixes v w :: double
  assumes "v * w = Fin r"
  shows "\<exists>p q. v = Fin p \<and> w = Fin q"
  using assms by (cases v; cases w) (simp_all split: if_splits)

lemma fin_divideD:
  assumes "v / Fin w = Fin q" and "w \<noteq> 0"
  shows "\<exists>m. v = Fin m \<and> q = m / w"
  using assms by (cases v) (simp_all split: if_splits)

lemma fin_c_logD:
  assumes "c_log v = Fin r"
  shows "\<exists>p. v = Fin p \<and> 0 < p"
  using assms by (cases v) (simp_all split: if_splits)

lemma fin_c_sqrtD:
  assumes "c_sqrt v = Fin r"
  shows "\<exists>p. v = Fin p \<and> 0 \<le> p"
  using assms by (cases v) (simp_all split: if_splits)

lemma abs_less_FinD:
  assumes "\<bar>v\<bar> < Fin e"
  shows "\<exists>w. v = Fin w \<and> \<bar>w\<bar> < e"
  using assms by (cases v) simp_all

lemma double_NaN [simp]:
  fixes v :: double
  shows "v + NaN = NaN" "NaN + v = NaN" "v * NaN = NaN" "NaN * v = NaN"
    "v / NaN = NaN" "NaN / v = NaN"
  by (cases v; simp)+

lemma minus_Fin [simp]: "Fin v - Fin w = Fin (v - w)"
  by (simp add: minus_double_def)

lemma minus_NaN [simp]:
  fixes v :: double
  shows "v - NaN = NaN" "NaN - v = NaN"
  by (simp_all add: minus_double_def)

lemma Fin_zero_plus [simp]: "Fin 0 + v = v"
  by (cases v) simp_all

lemma double_less_le_NaN [simp]:
  fixes v :: double
  shows "\<not> v < NaN" "\<not> NaN < v" "\<not> v \<le> NaN" "\<not> NaN \<le> v"
  by (cases v; simp)+






subsection \<open>The closed-form integral\<close>

text \<open>
  With \<open>a > 0\<close> and a discriminant \<open>b\<^sup>2 - 4ac \<le> 0\<close>, if the logarithm at time \<open>0\<close> has
  a positive argument then at every time \<open>t \<ge> 0\<close> the squared speed and the argument of
  the logarithm are positive.
\<close>

lemma abc_positive:
  fixes a b c t :: real
  assumes a: "0 < a" and disc: "b * b \<le> 4 * a * c"
    and A0: "0 < 1 / sqrt a * (b + sqrt a * sqrt c * 2) * (1 / 2)"
    and t: "0 \<le> t"
  shows "0 < c + b * t + a * (t * t) \<and>
         0 < 1 / sqrt a * (b * (1 / 2) + a * t) + sqrt (c + b * t + a * (t * t))"
proof -
  define r where "r = sqrt a"
  have r: "0 < r" "r * r = a" using a by (simp_all add: r_def)
  have c0: "0 \<le> c"
  proof -
    have "0 \<le> b * b" by simp
    then have "0 \<le> a * c" using disc by linarith
    then show ?thesis using a by (simp add: zero_le_mult_iff)
  qed
  define q where "q = c + b * t + a * (t * t)"
  define u where "u = b * (1 / 2) + a * t"
  define K where "K = a * c - b * b / 4"
  have K0: "0 \<le> K" using disc by (simp add: K_def)
  have id: "a * q = u * u + K"
    by (simp add: q_def u_def K_def algebra_simps)
  have aq0: "0 \<le> a * q" unfolding id using K0 by simp
  have q0: "0 \<le> q" using aq0 a by (simp add: zero_le_mult_iff)
  define s where "s = sqrt q"
  have s: "0 \<le> s" "s * s = q" using q0 by (simp_all add: s_def)
  have "(r * s) * (r * s) = (r * r) * (s * s)" by (simp only: ac_simps)
  also have "\<dots> = a * q" by (simp only: r s)
  finally have rs: "(r * s) * (r * s) = u * u + K" by (simp only: id)
  have rs0: "0 \<le> r * s" using r s by simp
  have goal: "0 < q \<and> 0 < u + r * s"
  proof (cases "0 < K")
    case True
    have "u * u < (r * s) * (r * s)" using rs True by linarith
    then have "- u < r * s" using rs0 by (rule square_less_nonneg)
    then have "0 < u + r * s" by linarith
    moreover have "0 < a * q" unfolding id using True by (simp add: add_nonneg_pos)
    then have "0 < q" using a by (simp add: zero_less_mult_iff)
    ultimately show ?thesis by simp
  next
    case False
    then have K: "K = 0" using K0 by simp
    have "(r * sqrt c) * (r * sqrt c) = (r * r) * (sqrt c * sqrt c)" by (simp only: ac_simps)
    also have "\<dots> = a * c" using r c0 by simp
    also have "\<dots> = (b / 2) * (b / 2)" using K by (simp add: K_def)
    finally have rc: "(r * sqrt c) * (r * sqrt c) = (b / 2) * (b / 2)" .
    have "0 \<le> r * sqrt c" using r c0 by simp
    with rc have rc': "r * sqrt c = \<bar>b / 2\<bar>" by (rule square_eq_nonneg)
    have "1 / sqrt a * (b + sqrt a * sqrt c * 2) * (1 / 2) = (b + r * sqrt c * 2) * (1 / r * (1 / 2))"
      by (simp only: r_def ac_simps)
    then have "0 < (b + r * sqrt c * 2) * (1 / r * (1 / 2))" using A0 by (simp only:)
    moreover have "0 < 1 / r * (1 / 2)" using r by simp
    ultimately have "0 < b + r * sqrt c * 2" by (simp only: zero_less_mult_pos2)
    then have "0 < b + \<bar>b / 2\<bar> * 2" by (simp only: rc')
    then have bpos: "0 < b" by linarith
    have "0 \<le> a * t" using a t by simp
    then have upos: "0 < u" using bpos by (simp add: u_def add_pos_nonneg)
    have "(r * s) * (r * s) = u * u" using rs K by simp
    then have "r * s = \<bar>u\<bar>" using rs0 by (rule square_eq_nonneg)
    then have rsu: "r * s = u" using upos by simp
    have "s \<noteq> 0" using rsu upos by auto
    then have "0 < s" using s by simp
    then have "0 < s * s" by simp
    then have "0 < q" by (simp only: s)
    then show ?thesis using upos rs0 by simp
  qed
  have "1 / sqrt a * u + s = (u + r * s) / r" using r by (simp add: r_def field_simps)
  moreover have "0 < (u + r * s) / r" using goal r by simp
  ultimately show ?thesis using goal unfolding q_def u_def s_def by simp
qed

text \<open>
There the derivative of the indefinite integral is the speed.
\<close>

lemma int_t_abc_deriv:
  fixes a b c t :: real
  assumes a: "0 < a" and q: "0 < c + b * t + a * (t * t)"
    and A: "0 < 1 / sqrt a * (b * (1 / 2) + a * t) + sqrt (c + b * t + a * (t * t))"
  shows "(int_t_abc a b c has_real_derivative sqrt (c + b * t + a * (t * t))) (at t)"
proof -
  define r where "r = sqrt a"
  define s where "s = sqrt (c + b * t + a * (t * t))"
  define w where "w = b + 2 * a * t"
  define K where "K = a * c - (b * b) * (1 / 4)"
  have r: "0 < r" "r * r = a" using a by (simp_all add: r_def)
  have s: "0 < s" "s * s = c + b * t + a * (t * t)" using q by (simp_all add: s_def)
  have At: "1 / sqrt a * (b * (1 / 2) + a * t) + sqrt (c + b * t + a * (t * t)) = (w + 2 * r * s) / (2 * r)"
    unfolding r_def[symmetric] s_def[symmetric] using r by (simp add: w_def field_simps)
  have pos: "0 < w + 2 * r * s"
  proof -
    have "0 < (w + 2 * r * s) / (2 * r)" using A unfolding At .
    then show ?thesis using r by (simp add: zero_less_divide_iff)
  qed
  have ds: "((\<lambda>x. sqrt (c + b * x + a * (x * x))) has_real_derivative w / (2 * s)) (at t)"
    using q by (auto intro!: derivative_eq_intros simp: s_def w_def field_simps)
  have d0: "((\<lambda>x. b * (1 / 2) + a * x) has_real_derivative a) (at t)"
    by (auto intro!: derivative_eq_intros)
  have d1: "((\<lambda>x. 1 / sqrt a * (b * (1 / 2) + a * x)) has_real_derivative 1 / r * a) (at t)"
    unfolding r_def by (rule DERIV_cmult[OF d0])
  have dA: "((\<lambda>x. 1 / sqrt a * (b * (1 / 2) + a * x) + sqrt (c + b * x + a * (x * x)))
              has_real_derivative (1 / r * a + w / (2 * s))) (at t)"
    by (rule DERIV_add[OF d1 ds])
  have dl: "((\<lambda>x. ln (1 / sqrt a * (b * (1 / 2) + a * x) + sqrt (c + b * x + a * (x * x))))
              has_real_derivative 1 / ((w + 2 * r * s) / (2 * r)) * (1 / r * a + w / (2 * s))) (at t)"
    using DERIV_chain2[OF DERIV_ln_divide[OF A] dA] unfolding At .
  have df: "((\<lambda>x. x * (1 / 2) + (b * (1 / 4)) / a) has_real_derivative 1 / 2) (at t)"
    by (auto intro!: derivative_eq_intros)
  have dm: "((\<lambda>x. (x * (1 / 2) + (b * (1 / 4)) / a) * sqrt (c + b * x + a * (x * x)))
              has_real_derivative (1 / 2 * s + w / (2 * s) * (t * (1 / 2) + (b * (1 / 4)) / a))) (at t)"
    unfolding s_def[symmetric] using DERIV_mult[OF df ds] unfolding s_def[symmetric] .
  have dL: "((\<lambda>x. 1 / (a powr (3 / 2))
                  * ln (1 / sqrt a * (b * (1 / 2) + a * x) + sqrt (c + b * x + a * (x * x)))
                  * K * (1 / 2))
              has_real_derivative
                1 / (a powr (3 / 2)) * (1 / ((w + 2 * r * s) / (2 * r)) * (1 / r * a + w / (2 * s)))
                  * K * (1 / 2)) (at t)"
    by (rule DERIV_cmult_right[OF DERIV_cmult_right[OF DERIV_cmult[OF dl]]])
  have dF: "(int_t_abc a b c has_real_derivative
              (1 / 2 * s + w / (2 * s) * (t * (1 / 2) + (b * (1 / 4)) / a)
               + 1 / (a powr (3 / 2)) * (1 / ((w + 2 * r * s) / (2 * r)) * (1 / r * a + w / (2 * s))) * K * (1 / 2)))
              (at t)"
    unfolding int_t_abc_def[abs_def] K_def[symmetric]
    by (rule DERIV_add[OF dm dL])
  have ra: "1 / r * a = r" using r by (simp add: field_simps)
  have ratio: "1 / ((w + 2 * r * s) / (2 * r)) * (1 / r * a + w / (2 * s)) = r / s"
  proof -
    have "1 / r * a + w / (2 * s) = (w + 2 * r * s) / (2 * s)"
      unfolding ra using s(1) by (simp add: field_simps)
    moreover have "1 / ((w + 2 * r * s) / (2 * r)) * ((w + 2 * r * s) / (2 * s)) = r / s"
      using pos r(1) s(1) by (rule ratio_cancel)
    ultimately show ?thesis by (simp only:)
  qed
  have third: "1 / (a powr (3 / 2)) * (r / s) * K * (1 / 2) = K / (2 * a * s)"
    unfolding powr_three_halves[OF a] r_def[symmetric] using r(1) s(1) a by (simp add: field_simps)
  have second: "w / (2 * s) * (t * (1 / 2) + (b * (1 / 4)) / a) = (w * w) / (8 * a * s)"
    using a s(1) by (simp add: w_def field_simps)
  have wK: "w * w + 4 * K = 4 * a * (s * s)"
    unfolding s by (simp add: w_def K_def algebra_simps)
  have "(w * w) / (8 * a * s) + K / (2 * a * s) = (w * w + 4 * K) / (8 * a * s)"
    using a s(1) by (simp add: field_simps)
  also have "\<dots> = s / 2" unfolding wK using a s(1) by (simp add: field_simps)
  finally have rest: "(w * w) / (8 * a * s) + K / (2 * a * s) = s / 2" .
  have "1 / 2 * s + w / (2 * s) * (t * (1 / 2) + (b * (1 / 4)) / a)
               + 1 / (a powr (3 / 2)) * (1 / ((w + 2 * r * s) / (2 * r)) * (1 / r * a + w / (2 * s))) * K * (1 / 2) = s"
    unfolding ratio third second using rest by linarith
  then show ?thesis using dF unfolding s_def by simp
qed

lemma int_t_abc_mono:
  fixes a b c :: real
  assumes a: "0 < a" and disc: "b * b \<le> 4 * a * c"
    and A0: "0 < 1 / sqrt a * (b + sqrt a * sqrt c * 2) * (1 / 2)"
    and t: "0 \<le> t1" "t1 \<le> t2"
  shows "int_t_abc a b c t1 \<le> int_t_abc a b c t2"
proof (rule DERIV_nonneg_imp_nondecreasing[OF t(2)])
  fix x assume x: "t1 \<le> x" "x \<le> t2"
  then have x0: "0 \<le> x" using t(1) by simp
  note pos = abc_positive[OF a disc A0 x0]
  have "(int_t_abc a b c has_real_derivative sqrt (c + b * x + a * (x * x))) (at x)"
    using pos by (intro int_t_abc_deriv[OF a]) simp_all
  moreover have "0 \<le> sqrt (c + b * x + a * (x * x))" using pos by simp
  ultimately show "\<exists>y. (int_t_abc a b c has_real_derivative y) (at x) \<and> 0 \<le> y" by blast
qed

text \<open>
  A finite value of the closed form: the logarithm at time \<open>0\<close> has a positive
  argument, and the value is the difference of the indefinite integral over the reals.
\<close>

lemma calc_abc_int_t0:
  assumes a: "0 < a"
    and fin: "calc_trans_distance_t_below_Tramp_abc t a b c = Fin v"
  shows "0 \<le> c \<and> 0 < 1 / sqrt a * (b + sqrt a * sqrt c * 2) * (1 / 2)"
proof -
  define arg0 where "arg0 = Fin 1 / c_sqrt (Fin a) * (Fin b + c_sqrt (Fin a) * c_sqrt (Fin c) * Fin 2) * Fin (1 / 2)"
  from fin obtain i0 where
    "(Fin b * c_sqrt (Fin c) * Fin (1 / 4)) / Fin a
       + Fin 1 / c_pow (Fin a) (3 / 2) * c_log arg0
         * (Fin a * Fin c - (Fin b * Fin b) * Fin (1 / 4)) * Fin (1 / 2) = Fin i0"
    unfolding calc_trans_distance_t_below_Tramp_abc_def Let_def arg0_def[symmetric]
    by (blast dest: fin_minusD)
  then obtain l where l: "c_log arg0 = Fin l"
    by (blast dest: fin_plusD fin_timesD)
  then obtain p where p: "arg0 = Fin p" "0 < p" by (blast dest: fin_c_logD)
  have c0: "0 \<le> c"
  proof (rule ccontr)
    assume "\<not> 0 \<le> c"
    then have "c_sqrt (Fin c) = NaN" by simp
    then have "arg0 = NaN" unfolding arg0_def by simp
    then show False using p by simp
  qed
  have "arg0 = Fin (1 / sqrt a * (b + sqrt a * sqrt c * 2) * (1 / 2))"
    unfolding arg0_def using a c0 by simp
  then show ?thesis using p c0 by simp
qed

lemma calc_abc_eq:
  fixes a b c t :: real
  assumes a: "0 < a" and disc: "b * b \<le> 4 * a * c"
    and A0: "0 < 1 / sqrt a * (b + sqrt a * sqrt c * 2) * (1 / 2)"
    and t: "0 \<le> t"
  shows "calc_trans_distance_t_below_Tramp_abc (Fin t) a b c
           = Fin (int_t_abc a b c t - int_t_abc a b c 0)"
proof -
  have c0: "0 \<le> c"
  proof -
    have "0 \<le> b * b" by simp
    then have "0 \<le> a * c" using disc by linarith
    then show ?thesis using a by (simp add: zero_le_mult_iff)
  qed
  note pos = abc_positive[OF a disc A0 t]
  have q: "Fin c + Fin b * Fin t + Fin a * (Fin t * Fin t) = Fin (c + b * t + a * (t * t))"
    by simp
  have sq: "c_sqrt (Fin (c + b * t + a * (t * t))) = Fin (sqrt (c + b * t + a * (t * t)))"
    using pos by simp
  have sa: "c_sqrt (Fin a) = Fin (sqrt a)" and sc: "c_sqrt (Fin c) = Fin (sqrt c)"
    using a c0 by simp_all
  have pw: "Fin 1 / c_pow (Fin a) (3 / 2) = Fin (1 / a powr (3 / 2))"
    using a by simp
  have inv: "Fin 1 / Fin (sqrt a) = Fin (1 / sqrt a)" using a by simp
  have l1: "c_log (Fin 1 / c_sqrt (Fin a) * (Fin b * Fin (1 / 2) + Fin a * Fin t)
                   + c_sqrt (Fin c + Fin b * Fin t + Fin a * (Fin t * Fin t)))
            = Fin (ln (1 / sqrt a * (b * (1 / 2) + a * t) + sqrt (c + b * t + a * (t * t))))"
    unfolding q sq sa inv using pos by simp
  have l0: "c_log (Fin 1 / c_sqrt (Fin a) * (Fin b + c_sqrt (Fin a) * c_sqrt (Fin c) * Fin 2) * Fin (1 / 2))
            = Fin (ln (1 / sqrt a * (b + sqrt a * sqrt c * 2) * (1 / 2)))"
    unfolding sa sc inv using A0 by simp
  have arg0: "1 / sqrt a * (b + sqrt a * sqrt c * 2) * (1 / 2)
              = 1 / sqrt a * (b * (1 / 2) + a * 0) + sqrt (c + b * 0 + a * (0 * 0))"
    using a by (simp add: field_simps)
  have F0: "int_t_abc a b c 0 = (b * sqrt c * (1 / 4)) / a
              + 1 / (a powr (3 / 2)) * ln (1 / sqrt a * (b + sqrt a * sqrt c * 2) * (1 / 2))
                * (a * c - (b * b) * (1 / 4)) * (1 / 2)"
    unfolding arg0 by (simp add: int_t_abc_def)
  have an0: "a \<noteq> 0" using a by simp
  show ?thesis
    unfolding calc_trans_distance_t_below_Tramp_abc_def Let_def l1 l0 pw
    unfolding q sq sc F0
    unfolding int_t_abc_def
    using an0 by simp
qed

text \<open>
The coefficients of a ramp satisfy the two conditions (Cauchy-Schwarz).
\<close>

lemma ramp_disc:
  fixes k2 k4 vxi vyi :: real
  shows "(k2 * vxi * 4 + k4 * vyi * 4) * (k2 * vxi * 4 + k4 * vyi * 4)
           \<le> 4 * ((k2 * k2) * 4 + (k4 * k4) * 4) * (vxi * vxi + vyi * vyi)"
proof -
  have "0 \<le> 16 * ((k2 * vyi - k4 * vxi) * (k2 * vyi - k4 * vxi))" by simp
  then show ?thesis by (simp add: algebra_simps)
qed

lemma ramp_a_pos:
  fixes k2 k4 :: real
  assumes "\<bar>k2\<bar> > eps \<or> \<bar>k4\<bar> > eps"
  shows "0 < (k2 * k2) * 4 + (k4 * k4) * 4"
proof -
  have "k2 \<noteq> 0 \<or> k4 \<noteq> 0" using assms by (auto simp: eps_def)
  then have "0 < k2 * k2 + k4 * k4" by (simp only: sum_squares_gt_zero_iff)
  then show ?thesis by simp
qed

lemma calc_trans_general:
  assumes "\<bar>k2\<bar> > eps \<or> \<bar>k4\<bar> > eps"
    and "\<not> (\<bar>k2 * vxi * 4 + k4 * vyi * 4\<bar> < eps \<and> \<bar>vxi * vxi + vyi * vyi\<bar> < eps)"
  shows "calc_trans_distance_t_below_Tramp k2 k4 vxi vyi u =
     calc_trans_distance_t_below_Tramp_abc (Fin u) ((k2 * k2) * 4 + (k4 * k4) * 4)
       (k2 * vxi * 4 + k4 * vyi * 4) (vxi * vxi + vyi * vyi)"
  using assms unfolding calc_trans_distance_t_below_Tramp_def Let_def by auto

text \<open>
  If the distance is finite at one time, it is finite at every time \<open>t \<ge> 0\<close>, it
  is \<open>0\<close> at \<open>0\<close>, and it does not decrease.
\<close>

lemma calc_trans_distance_mono:
  assumes d1: "calc_trans_distance_t_below_Tramp k2 k4 vxi vyi t = Fin d"
    and t: "0 \<le> t1" "t1 \<le> t2"
  shows "\<exists>d1 d2. calc_trans_distance_t_below_Tramp k2 k4 vxi vyi t1 = Fin d1 \<and>
                 calc_trans_distance_t_below_Tramp k2 k4 vxi vyi t2 = Fin d2 \<and> d1 \<le> d2"
proof -
  define a where "a = (k2 * k2) * 4 + (k4 * k4) * 4"
  define b where "b = k2 * vxi * 4 + k4 * vyi * 4"
  define c where "c = vxi * vxi + vyi * vyi"
  have t2: "0 \<le> t2" using t by simp
  consider (A) "\<not> (\<bar>k2\<bar> > eps \<or> \<bar>k4\<bar> > eps)"
    | (B) "\<bar>k2\<bar> > eps \<or> \<bar>k4\<bar> > eps" "\<bar>b\<bar> < eps \<and> \<bar>c\<bar> < eps"
    | (G) "\<bar>k2\<bar> > eps \<or> \<bar>k4\<bar> > eps" "\<not> (\<bar>b\<bar> < eps \<and> \<bar>c\<bar> < eps)"
    by blast
  then show ?thesis
  proof cases
    case A
    have le: "sqrt c * t1 \<le> sqrt c * t2" using t by (intro mult_left_mono) (simp_all add: c_def)
    have e: "calc_trans_distance_t_below_Tramp k2 k4 vxi vyi u = Fin (sqrt c * u)" for u
      using A by (simp add: calc_trans_distance_t_below_Tramp_def Let_def c_def)
    show ?thesis unfolding e using le by blast
  next
    case B
    have "t1 * t1 \<le> t2 * t2" using t by (intro mult_mono) simp_all
    moreover have "0 \<le> sqrt a" by (simp add: a_def)
    ultimately have "sqrt a * (t1 * t1) \<le> sqrt a * (t2 * t2)" by (rule mult_left_mono)
    then have le: "sqrt a * (t1 * t1) * (1 / 2) \<le> sqrt a * (t2 * t2) * (1 / 2)" by simp
    have e: "calc_trans_distance_t_below_Tramp k2 k4 vxi vyi u = Fin (sqrt a * (u * u) * (1 / 2))" for u
      using B by (simp add: calc_trans_distance_t_below_Tramp_def Let_def a_def b_def c_def)
    show ?thesis unfolding e using le by blast
  next
    case G
    have eq: "calc_trans_distance_t_below_Tramp k2 k4 vxi vyi u
                = calc_trans_distance_t_below_Tramp_abc (Fin u) a b c" for u
      using G unfolding a_def b_def c_def by (rule calc_trans_general)
    have a: "0 < a" unfolding a_def using G(1) by (rule ramp_a_pos)
    have disc: "b * b \<le> 4 * a * c" unfolding a_def b_def c_def by (rule ramp_disc)
    have A0: "0 < 1 / sqrt a * (b + sqrt a * sqrt c * 2) * (1 / 2)"
      using calc_abc_int_t0[OF a, of "Fin t" b c d] d1 eq by simp
    have le: "int_t_abc a b c t1 - int_t_abc a b c 0 \<le> int_t_abc a b c t2 - int_t_abc a b c 0"
      using int_t_abc_mono[OF a disc A0 t] by simp
    show ?thesis
      unfolding eq calc_abc_eq[OF a disc A0 t(1)] calc_abc_eq[OF a disc A0 t2]
      using le by blast
  qed
qed



text \<open>
  \<^verbatim>\<open>getPathDist\<close> on a direction where it is finite at some step: it is finite at
  every step, it does not decrease with the step, and from the end of the ramp on it
  grows by \<^verbatim>\<open>V_MAX\<close> per unit of time.
\<close>

lemma getPathDist_mono:
  assumes T: "0 < T_ramp cfg" and V: "0 < V_MAX cfg"
    and d: "getPathDist cfg k step0 = Fin d0"
    and le: "step1 \<le> step2"
  shows "\<exists>d1 d2. getPathDist cfg k step1 = Fin d1 \<and> getPathDist cfg k step2 = Fin d2 \<and> d1 \<le> d2 \<and>
           (T_ramp cfg \<le> PATH_TIME_STEP * real (unat step1) \<longrightarrow>
              d2 - d1 = V_MAX cfg * (PATH_TIME_STEP * real (unat step2) - PATH_TIME_STEP * real (unat step1)))"
proof -
  define k2 where "k2 = (V_MAX cfg * cos (index2alpha cfg k) - vx (curVelLocal cfg)) * (1 / (2 * T_ramp cfg))"
  define k4 where "k4 = (V_MAX cfg * sin (index2alpha cfg k) - vy (curVelLocal cfg)) * (1 / (2 * T_ramp cfg))"
  define f where "f = calc_trans_distance_t_below_Tramp k2 k4 (vx (curVelLocal cfg)) (vy (curVelLocal cfg))"
  define tm where "tm s = PATH_TIME_STEP * real (unat s)" for s :: "16 word"
  have gp: "getPathDist cfg k s = (if tm s < T_ramp cfg then f (tm s)
              else Fin ((tm s - T_ramp cfg) * V_MAX cfg) + f (T_ramp cfg))" for s
    unfolding getPathDist_def Let_def k2_def[symmetric] k4_def[symmetric] f_def[symmetric] tm_def[symmetric] ..
  have t0: "0 \<le> tm s" for s
  proof -
    have "0 \<le> PATH_TIME_STEP" by (simp add: PATH_TIME_STEP_def)
    moreover have "0 \<le> real (unat s)" by (rule of_nat_0_le_iff)
    ultimately show ?thesis unfolding tm_def by (rule mult_nonneg_nonneg)
  qed
  have tle: "tm step1 \<le> tm step2"
  proof -
    have "unat step1 \<le> unat step2" using le by (simp only: word_le_nat_alt)
    then have "real (unat step1) \<le> real (unat step2)" by (simp only: of_nat_le_iff)
    moreover have "0 \<le> PATH_TIME_STEP" by (simp add: PATH_TIME_STEP_def)
    ultimately show ?thesis unfolding tm_def by (rule mult_left_mono)
  qed
  obtain t d' where def: "f t = Fin d'"
  proof (cases "tm step0 < T_ramp cfg")
    case True
    then show ?thesis using d that unfolding gp by simp
  next
    case False
    then have "Fin ((tm step0 - T_ramp cfg) * V_MAX cfg) + f (T_ramp cfg) = Fin d0"
      using d unfolding gp by simp
    then show ?thesis using that by (blast dest: fin_plusD)
  qed
  have mono: "\<exists>d1 d2. f u = Fin d1 \<and> f w = Fin d2 \<and> d1 \<le> d2" if "0 \<le> u" "u \<le> w" for u w
    using calc_trans_distance_mono[OF def[unfolded f_def] that] unfolding f_def .
  show ?thesis
  proof (cases "tm step2 < T_ramp cfg")
    case True
    then have "tm step1 < T_ramp cfg" using tle by simp
    then show ?thesis using True mono[OF t0 tle] unfolding gp tm_def[symmetric] by auto
  next
    case False
    note F2 = this
    show ?thesis
    proof (cases "tm step1 < T_ramp cfg")
      case True
      from mono[OF t0, of step1 "T_ramp cfg"] True
      obtain d1 dT where *: "f (tm step1) = Fin d1" "f (T_ramp cfg) = Fin dT" "d1 \<le> dT" by auto
      have "0 \<le> (tm step2 - T_ramp cfg) * V_MAX cfg" using F2 V by simp
      then show ?thesis using True F2 * unfolding gp tm_def[symmetric] by auto
    next
      case False
      from mono[OF _ order_refl, of "T_ramp cfg"] T
      obtain dT where *: "f (T_ramp cfg) = Fin dT" by auto
      have g1: "getPathDist cfg k step1 = Fin ((tm step1 - T_ramp cfg) * V_MAX cfg + dT)"
        and g2: "getPathDist cfg k step2 = Fin ((tm step2 - T_ramp cfg) * V_MAX cfg + dT)"
        using False F2 * unfolding gp by simp_all
      have l: "(tm step1 - T_ramp cfg) * V_MAX cfg + dT \<le> (tm step2 - T_ramp cfg) * V_MAX cfg + dT"
        using tle V by simp
      have e: "((tm step2 - T_ramp cfg) * V_MAX cfg + dT) - ((tm step1 - T_ramp cfg) * V_MAX cfg + dT)
                 = V_MAX cfg * (tm step2 - tm step1)"
        by (simp add: algebra_simps)
      show ?thesis unfolding g1 g2 tm_def[symmetric] using l e by blast
    qed
  qed
qed


text \<open>
  When the initial and the target velocity are collinear and the robot accelerates
  (\<open>kk > 0\<close>, \<open>v > 0\<close>), the closed form is the polynomial \<open>v t + kk t\<^sup>2\<close>.
\<close>

lemma calc_abc_collinear:
  fixes kk v t a b c :: real
  assumes a: "a = 4 * (kk * kk)" and b: "b = 4 * (kk * v)" and c: "c = v * v"
    and kk: "0 < kk" and v: "0 < v" and t: "0 \<le> t"
  shows "calc_trans_distance_t_below_Tramp_abc (Fin t) a b c = Fin (v * t + kk * (t * t))"
proof -
  have kt: "0 \<le> kk * t" using kk t by simp
  have a0: "0 < a" using kk by (simp add: a)
  have r: "sqrt a = 2 * kk" using kk by (intro sqrt_square_eq) (simp_all add: a)
  have sc: "sqrt c = v" using v by (intro sqrt_square_eq) (simp_all add: c)
  have sq: "sqrt (c + b * t + a * (t * t)) = v + 2 * (kk * t)"
    using v kt by (intro sqrt_square_eq) (simp_all add: a b c algebra_simps)
  have K: "a * c - (b * b) * (1 / 4) = 0" by (simp add: a b c)
  have disc: "b * b \<le> 4 * a * c" using K by simp
  have l0: "1 / sqrt a * (b + sqrt a * sqrt c * 2) * (1 / 2) = 2 * v"
    unfolding r sc using kk by (simp add: b field_simps)
  have A0: "0 < 1 / sqrt a * (b + sqrt a * sqrt c * 2) * (1 / 2)" unfolding l0 using v by simp
  have val: "(t * (1 / 2) + (b * (1 / 4)) / a) * (v + 2 * (kk * t)) - (b * v * (1 / 4)) / a
              = v * t + kk * (t * t)"
    using kk by (simp add: a b field_simps)
  have "int_t_abc a b c t - int_t_abc a b c 0
          = (t * (1 / 2) + (b * (1 / 4)) / a) * (v + 2 * (kk * t)) - (b * v * (1 / 4)) / a"
    unfolding int_t_abc_def K using sq sc by simp
  then show ?thesis unfolding calc_abc_eq[OF a0 disc A0 t] val by simp
qed

lemma newton_err_collinear:
  fixes kk v t a b c :: real
  assumes "a = 4 * (kk * kk)" "b = 4 * (kk * v)" "c = v * v" "0 < kk" "0 < v" "0 \<le> t"
  shows "newton_err a b c dst (Fin t) = Fin (v * t + kk * (t * t) - dst)"
  by (simp add: newton_err_def calc_abc_collinear[OF assms])

lemma newton_diff_collinear:
  fixes kk v t a b c :: real
  assumes a: "a = 4 * (kk * kk)" and b: "b = 4 * (kk * v)" and c: "c = v * v"
    and kk: "0 < kk" and v: "0 < v" and t: "0 \<le> t"
  shows "newton_diff a b c (Fin t) = Fin (v + 2 * (kk * t))"
proof -
  have kt: "0 \<le> kk * t" using kk t by simp
  have e: "a * t * t + b * t + c = (v + 2 * (kk * t)) * (v + 2 * (kk * t))"
    by (simp add: a b c algebra_simps)
  have "sqrt (a * t * t + b * t + c) = v + 2 * (kk * t)"
    using e v kt by (intro sqrt_square_eq) simp_all
  moreover have "0 \<le> a * t * t + b * t + c" unfolding e by simp
  ultimately show ?thesis by (simp add: newton_diff_def)
qed

subsection \<open>The Newton iteration\<close>

lemma t_solved_newton:
  assumes "newton_branch cfg k dst" and "ramp_coefficients cfg k = (a, b, c)"
  shows "t_solved_for_dist cfg k dst = newton_loop 10 a b c dst (Fin (T_ramp cfg * (6 / 10)))"
  using assms unfolding newton_branch_def ramp_coefficients_def t_solved_for_dist_def Let_def
  by auto

lemma newton_loop_result:
  assumes "newton_loop n a b c dst t0 = Inr r"
  shows "(\<exists>f. calc_trans_distance_t_below_Tramp_abc r a b c = Fin f \<and> \<bar>f - dst\<bar> < 1 / 1000)
         \<or> r = (newton_update a b c dst ^^ n) t0"
  using assms
proof (induction n arbitrary: t0)
  case 0
  then show ?case by simp
next
  case (Suc n)
  show ?case
  proof (cases "\<bar>newton_err a b c dst t0\<bar> < Fin (1 / 1000)")
    case True
    then have r: "r = t0" using Suc.prems by simp
    from True obtain e where e: "newton_err a b c dst t0 = Fin e" "\<bar>e\<bar> < 1 / 1000"
      by (blast dest: abs_less_FinD)
    from e(1) obtain f where f: "calc_trans_distance_t_below_Tramp_abc t0 a b c = Fin f"
      unfolding newton_err_def by (blast dest: fin_minusD)
    have "e = f - dst" using e(1) unfolding newton_err_def f by simp
    then show ?thesis using r e f by auto
  next
    case False
    then have "newton_loop n a b c dst (newton_update a b c dst t0) = Inr r"
      using Suc.prems by (simp split: if_splits)
    from Suc.IH[OF this] show ?thesis by (auto simp: funpow_swap1)
  qed
qed

lemma getPathStepForDist_Fin:
  assumes "t_solved_for_dist cfg k dst = Inr (Fin t)" and "0 \<le> t"
  shows "getPathStepForDist cfg k dst = Inr (Some (word_of_int (mrpt_round (t / PATH_TIME_STEP))))"
proof -
  have q: "Fin t / Fin PATH_TIME_STEP = Fin (t / PATH_TIME_STEP)"
    by (simp add: PATH_TIME_STEP_def)
  show ?thesis
    unfolding getPathStepForDist_def using assms by (simp add: q del: divide_double.simps)
qed

text \<open>
  A run: ramp \<open>1\<close>, maximum speed \<open>0.11\<close>, the robot moving at \<open>0.1\<close> in the direction
  of the path, target distance \<open>0.104836\<close>. The first update goes from \<open>0.6\<close> to
  \<open>1.006\<close>, where the residual is \<open>0.00082418\<close>.
\<close>

lemma newton_example:
  "newton_loop (Suc (Suc n)) (1 / 10000) (1 / 500) (1 / 100) (26209 / 250000) (Fin (3 / 5))
     = Inr (Fin (503 / 500))"
proof -
  have abc: "(1 / 10000 :: real) = 4 * (1 / 200 * (1 / 200))" "(1 / 500 :: real) = 4 * (1 / 200 * (1 / 10))"
    "(1 / 100 :: real) = 1 / 10 * (1 / 10)" "(0::real) < 1 / 200" "(0::real) < 1 / 10"
    by simp_all
  have e0: "newton_err (1 / 10000) (1 / 500) (1 / 100) (26209 / 250000) (Fin (3 / 5)) = Fin (- (10759 / 250000))"
    using newton_err_collinear[OF abc, of "3 / 5" "26209 / 250000"] by simp
  have d0: "newton_diff (1 / 10000) (1 / 500) (1 / 100) (Fin (3 / 5)) = Fin (53 / 500)"
    using newton_diff_collinear[OF abc, of "3 / 5"] by simp
  have u0: "newton_update (1 / 10000) (1 / 500) (1 / 100) (26209 / 250000) (Fin (3 / 5)) = Fin (503 / 500)"
    by (simp add: newton_update_def e0 d0)
  have e1: "newton_err (1 / 10000) (1 / 500) (1 / 100) (26209 / 250000) (Fin (503 / 500)) = Fin (41209 / 50000000)"
    using newton_err_collinear[OF abc, of "503 / 500" "26209 / 250000"] by simp
  show ?thesis by (simp add: e0 d0 u0 e1)
qed

lemma accel_coefficients:
  "ramp_coefficients (test_cfg 1 (11 / 100) (1 / 10) 0) 0 = (1 / 10000, 1 / 500, 1 / 100)"
  by (simp add: ramp_coefficients_def test_cfg_def Let_def)

lemma accel_calc:
  assumes "0 \<le> t"
  shows "calc_trans_distance_t_below_Tramp (1 / 200) 0 (1 / 10) 0 t = Fin (1 / 10 * t + 1 / 200 * (t * t))"
proof -
  have "calc_trans_distance_t_below_Tramp (1 / 200) 0 (1 / 10) 0 t =
     calc_trans_distance_t_below_Tramp_abc (Fin t) ((1 / 200 * (1 / 200)) * 4 + (0 * 0) * 4)
       (1 / 200 * (1 / 10) * 4 + 0 * 0 * 4) (1 / 10 * (1 / 10) + 0 * 0)"
    by (rule calc_trans_general) (simp_all add: eps_def)
  also have "\<dots> = Fin (1 / 10 * t + 1 / 200 * (t * t))"
    using assms by (intro calc_abc_collinear) simp_all
  finally show ?thesis .
qed

lemma accel_branch:
  "newton_branch (test_cfg 1 (11 / 100) (1 / 10) 0) 0 (26209 / 250000)"
  using accel_calc[of 1]
  by (simp add: newton_branch_def test_cfg_def Let_def eps_def)

lemma accel_t_solved:
  "t_solved_for_dist (test_cfg 1 (11 / 100) (1 / 10) 0) 0 (26209 / 250000) = Inr (Fin (503 / 500))"
proof -
  have n: "(10::nat) = Suc (Suc 8)" by simp
  have T: "T_ramp (test_cfg 1 (11 / 100) (1 / 10) 0) * (6 / 10) = 3 / 5" by (simp add: test_cfg_def)
  show ?thesis
    unfolding t_solved_newton[OF accel_branch accel_coefficients] T n
    by (rule newton_example)
qed

lemma accel_step:
  "getPathStepForDist (test_cfg 1 (11 / 100) (1 / 10) 0) 0 (26209 / 250000) = Inr (Some 101)"
proof -
  have "mrpt_round ((503 / 500) / PATH_TIME_STEP) = 101"
    by (simp add: mrpt_round_def PATH_TIME_STEP_def round_def)
  then show ?thesis by (simp add: getPathStepForDist_def accel_t_solved PATH_TIME_STEP_def)
qed

subsection \<open>The loop over the directions\<close>




text \<open>
  A run: the robot at rest, ramp \<open>1\<close>, maximum speed \<open>1\<close>, every direction of angle
  \<open>0\<close>, the target \<open>(10, 0)\<close>. Each direction reaches the target at time \<open>9.5\<close> after
  the distance \<open>9\<close>.
\<close>

lemma calc_rest: "calc_trans_distance_t_below_Tramp (1 / 2) 0 0 0 1 = Fin (1 / 2)"
  by (simp add: calc_trans_distance_t_below_Tramp_def eps_def Let_def)

lemma t_solve_rest:
  assumes n: "0 < unat n"
  shows "t_solve_direction ((test_cfg 1 1 0 0)\<lparr>m_alphaValuesCount := n\<rparr>) 10 0 k = Some (19 / 2)"
proof -
  have e: "0 < eps_distance ((test_cfg 1 1 0 0)\<lparr>m_alphaValuesCount := n\<rparr>) 10 0"
    using n by (simp add: eps_distance_def test_cfg_def del: of_nat_unat)
  have bx: "axis_below_Tramp 1 epsd 1 0 10 = Some (False, - 1)" for epsd
    by (simp add: axis_below_Tramp_def eps_def Let_def)
  have ax: "axis_above_Tramp 1 (1 / 2) epsd 1 0 10 (False, - 1) = (False, 19 / 2)" for epsd
    by (simp add: axis_above_Tramp_def eps_def Let_def)
  have yb: "axis_below_Tramp 1 epsd 0 0 0 = Some (True, 0)" if "0 < epsd" for epsd
    using that by (simp add: axis_below_Tramp_def eps_def Let_def)
  have ya: "axis_above_Tramp 1 (1 / 2) epsd 0 0 0 s = (True, snd s)" if "0 < epsd" for epsd s
    using that by (simp add: axis_above_Tramp_def eps_def Let_def)
  show ?thesis
    using yb[OF e] ya[OF e]
    by (simp add: t_solve_direction_def t_solve_with_def test_cfg_def Let_def bx ax)
qed

lemma candidate_rest:
  assumes n: "0 < unat n"
  shows "candidate ((test_cfg 1 1 0 0)\<lparr>m_alphaValuesCount := n\<rparr>) 10 0 k = Some (Fin 9)"
proof -
  have "dist_trans_direction ((test_cfg 1 1 0 0)\<lparr>m_alphaValuesCount := n\<rparr>) k (19 / 2) = Fin 9"
    using calc_rest by (simp add: dist_trans_direction_def test_cfg_def Let_def)
  then show ?thesis by (simp add: candidate_def t_solve_rest[OF n])
qed

lemma DBL_MAX_gt: "9 < DBL_MAX"
proof -
  have "(2::real) ^ 4 \<le> 2 ^ 1023" by (rule power_increasing) simp_all
  moreover have "(1::real) \<le> 2 - 1 / 2 ^ 52" by simp
  ultimately have "1 * (2::real) ^ 4 \<le> (2 - 1 / 2 ^ 52) * 2 ^ 1023"
    by (intro mult_mono) simp_all
  then show ?thesis by (simp add: DBL_MAX_def)
qed

lemma inverseMap_rest1:
  "inverseMap_WS2TP (test_cfg 1 1 0 0) 10 0 = Inr (Some (0, Fin 9))"
proof -
  have c: "test_cfg 1 1 0 0 = (test_cfg 1 1 0 0)\<lparr>m_alphaValuesCount := 1\<rparr>"
    by (simp add: test_cfg_def)
  have cand: "candidate (test_cfg 1 1 0 0) 10 0 k = Some (Fin 9)" for k
    using candidate_rest[of 1 k] c by simp
  have n: "unat (m_alphaValuesCount (test_cfg 1 1 0 0)) = 1" by (simp add: test_cfg_def)
  have r: "refDistance (test_cfg 1 1 0 0) = 1" by (simp add: test_cfg_def)
  show ?thesis
    using DBL_MAX_gt
    by (simp add: inverseMap_WS2TP_def n r scan_direction_def cand Let_def)
qed

text \<open>
  A run on the two opposite directions, the target \<open>(0, 1/8)\<close>. Direction \<open>0\<close>
  decelerates from \<open>1/2\<close> to rest along the \<open>y\<close> axis and is at the target at the
  time \<open>1/2\<close>, where its velocity vanishes; its coefficients are \<open>a = 1\<close>,
  \<open>b = - 1\<close>, \<open>c = 1/4\<close>, the logarithm of the closed form is taken at \<open>0\<close> and
  multiplied by \<open>a c - b\<^sup>2/4 = 0\<close>. Direction \<open>1\<close> is at the target at the time
  \<open>1/4\<close> after the distance \<open>1/8\<close>.
\<close>

lemma opposite_t_solve:
  "t_solve_direction opposite_cfg 0 (1 / 8) 0 = Some (1 / 2) \<and>
   t_solve_direction opposite_cfg 0 (1 / 8) 1 = Some (1 / 4)"
proof -
  have e: "0 < eps_distance opposite_cfg 0 (1 / 8)"
    by (simp add: eps_distance_def opposite_cfg_def)
  have xb: "axis_below_Tramp 1 epsd 0 0 0 = Some (True, 0)" if "0 < epsd" for epsd
    using that by (simp add: axis_below_Tramp_def eps_def Let_def)
  have y0: "axis_below_Tramp 1 epsd (- (1 / 2)) (1 / 2) (1 / 8) = Some (False, 1 / 2)" for epsd
    by (simp add: axis_below_Tramp_def eps_def Let_def)
  have y1: "axis_below_Tramp 1 epsd (1 / 2) (1 / 2) (1 / 8) = Some (False, 1 / 4)" for epsd
    by (simp add: axis_below_Tramp_def eps_def Let_def)
  show ?thesis
    using xb[OF e]
    by (simp add: t_solve_direction_def t_solve_with_def opposite_cfg_def Let_def y0 y1)
qed

lemma opposite_calc_nan:
  "calc_trans_distance_t_below_Tramp 0 (- (1 / 2)) 0 (1 / 2) (1 / 2) = NaN"
proof -
  have "calc_trans_distance_t_below_Tramp 0 (- (1 / 2)) 0 (1 / 2) (1 / 2) =
     calc_trans_distance_t_below_Tramp_abc (Fin (1 / 2)) ((0 * 0) * 4 + (- (1 / 2) * (- (1 / 2))) * 4)
       (0 * 0 * 4 + (- (1 / 2)) * (1 / 2) * 4) (0 * 0 + 1 / 2 * (1 / 2))"
    by (rule calc_trans_general) (simp_all add: eps_def)
  then have e: "calc_trans_distance_t_below_Tramp 0 (- (1 / 2)) 0 (1 / 2) (1 / 2) =
     calc_trans_distance_t_below_Tramp_abc (Fin (1 / 2)) 1 (- 1) (1 / 4)"
    by simp
  have l: "c_log (Fin 1 / c_sqrt (Fin 1) * (Fin (- 1) * Fin (1 / 2) + Fin 1 * Fin (1 / 2))
                  + c_sqrt (Fin (1 / 4) + Fin (- 1) * Fin (1 / 2) + Fin 1 * (Fin (1 / 2) * Fin (1 / 2)))) = NInf"
    by simp
  have t: "Fin 1 / c_pow (Fin 1) (3 / 2) * NInf
              * (Fin 1 * Fin (1 / 4) - (Fin (- 1) * Fin (- 1)) * Fin (1 / 4)) = NaN"
    by simp
  show ?thesis
    unfolding e calc_trans_distance_t_below_Tramp_abc_def Let_def l t by simp
qed

lemma opposite_candidate:
  "candidate opposite_cfg 0 (1 / 8) 0 = Some NaN \<and>
   candidate opposite_cfg 0 (1 / 8) 1 = Some (Fin (1 / 8))"
proof -
  have "sqrt (1 / 4 :: real) = 1 / 2" by (intro sqrt_square_eq) simp_all
  then have c1: "calc_trans_distance_t_below_Tramp 0 0 0 (1 / 2) (1 / 4) = Fin (1 / 8)"
    by (simp add: calc_trans_distance_t_below_Tramp_def eps_def Let_def)
  have d0: "dist_trans_direction opposite_cfg 0 (1 / 2) = NaN"
    using opposite_calc_nan by (simp add: dist_trans_direction_def opposite_cfg_def Let_def)
  have d1: "dist_trans_direction opposite_cfg 1 (1 / 4) = Fin (1 / 8)"
    using c1 by (simp add: dist_trans_direction_def opposite_cfg_def Let_def)
  show ?thesis using opposite_t_solve d0 d1 by (simp add: candidate_def)
qed

lemma opposite_inverseMap:
  "inverseMap_WS2TP opposite_cfg 0 (1 / 8) = Inr (Some (1, Fin (1 / 8)))"
proof -
  have n: "[0 ..< unat (m_alphaValuesCount opposite_cfg)] = [0, Suc 0]"
    by (simp add: opposite_cfg_def upt_rec)
  have r: "refDistance opposite_cfg = 1" by (simp add: opposite_cfg_def)
  have m: "1 / 8 < DBL_MAX" using DBL_MAX_gt by simp
  show ?thesis
    unfolding inverseMap_WS2TP_def n r Let_def
    using opposite_candidate m by (simp add: scan_direction_def)
qed

lemma opposite_pose:
  assumes "s \<le> (50 :: 16 word)"
  shows "getPathPose opposite_cfg 0 s =
           \<lparr>pose_x = 0,
            pose_y = PATH_TIME_STEP * real (unat s) * (1 / 2)
                       - PATH_TIME_STEP * real (unat s) * (PATH_TIME_STEP * real (unat s)) * (1 / 2),
            pose_phi = - (PATH_TIME_STEP * real (unat s))\<rparr>
         \<and> PATH_TIME_STEP * real (unat s) \<le> 1 / 2"
proof -
  have "unat s \<le> unat (50 :: 16 word)" using assms by (simp only: word_le_nat_alt)
  then have "unat s \<le> 50" by simp
  then have "real (unat s) \<le> 50" by (simp del: of_nat_unat)
  then have t: "PATH_TIME_STEP * real (unat s) \<le> 1 / 2" by (simp add: PATH_TIME_STEP_def del: of_nat_unat)
  have t0: "0 \<le> PATH_TIME_STEP * real (unat s)" by (simp add: PATH_TIME_STEP_def del: of_nat_unat)
  define u where "u = PATH_TIME_STEP * real (unat s)"
  have "getPathPose opposite_cfg 0 s =
           \<lparr>pose_x = 0, pose_y = u * (1 / 2) - u * u * (1 / 2), pose_phi = - u\<rparr>"
    unfolding getPathPose_def Let_def u_def[symmetric]
    using t[folded u_def] t0[folded u_def] pi_ge_two
    by (simp add: opposite_cfg_def algebra_simps)
  then show ?thesis using t unfolding u_def by simp
qed

subsection \<open>The two tolerances at work\<close>

text \<open>
  Thirteen directions, the robot at rest, a direction along the \<open>y\<close> axis, the target
  \<open>(1, 0)\<close> on the \<open>x\<close> axis: the tolerance \<^verbatim>\<open>eps_distance\<close> of the source exceeds
  the distance \<open>1\<close> of the target, the one of the specification does not.
\<close>

lemma thirteen_eps:
  "1 < eps_distance ((test_cfg 1 1 0 (pi / 2))\<lparr>m_alphaValuesCount := 13\<rparr>) 1 0 \<and>
   spec_eps_distance ((test_cfg 1 1 0 (pi / 2))\<lparr>m_alphaValuesCount := 13\<rparr>) 1 0 \<le> 1 \<and>
   1 / 2 \<le> spec_TIME_MISMATCH_TOLERANCE ((test_cfg 1 1 0 (pi / 2))\<lparr>m_alphaValuesCount := 13\<rparr>) 1 0"
  using pi_gt_65_21 pi_le_13_4
  by (simp add: eps_distance_def spec_eps_distance_def spec_TIME_MISMATCH_TOLERANCE_def test_cfg_def)

lemma thirteen_axis:
  "axis_below_Tramp 1 epsd 0 0 1 = Some (if 1 < epsd then (True, 0) else (False, - 1)) \<and>
   axis_below_Tramp 1 epsd 1 0 0 = Some (False, 0) \<and>
   axis_above_Tramp 1 (1 / 2) epsd 0 0 1 s = (if 1 < epsd then (True, snd s) else (fst s, - 1)) \<and>
   axis_above_Tramp 1 (1 / 2) epsd 1 0 0 s = (fst s, - (1 / 2))"
  by (simp add: axis_below_Tramp_def axis_above_Tramp_def eps_def Let_def)

lemma thirteen_code:
  "t_solve_direction ((test_cfg 1 1 0 (pi / 2))\<lparr>m_alphaValuesCount := 13\<rparr>) 1 0 0 = Some 0"
  using thirteen_eps
  by (simp add: t_solve_direction_def t_solve_with_def test_cfg_def Let_def thirteen_axis)

lemma thirteen_spec:
  "t_solve_with (spec_eps_distance ((test_cfg 1 1 0 (pi / 2))\<lparr>m_alphaValuesCount := 13\<rparr>) 1 0)
     (spec_TIME_MISMATCH_TOLERANCE ((test_cfg 1 1 0 (pi / 2))\<lparr>m_alphaValuesCount := 13\<rparr>) 1 0)
     ((test_cfg 1 1 0 (pi / 2))\<lparr>m_alphaValuesCount := 13\<rparr>) 1 0 0 = Some (- 1)"
  using thirteen_eps
  by (simp add: t_solve_with_def test_cfg_def Let_def thirteen_axis)

text \<open>
  Twenty directions, the robot moving at \<open>1\<close> along the \<open>x\<close> axis, a direction along
  the \<open>y\<close> axis, the target \<open>(1/2, 1/8)\<close>: the \<open>x\<close> axis is solved at the time \<open>1\<close>,
  the \<open>y\<close> axis at the time \<open>1/2\<close>. The mismatch \<open>1/2\<close> is above the tolerance of
  the source and below the one of the specification.
\<close>

lemma twenty_tol:
  "TIME_MISMATCH_TOLERANCE ((test_cfg 1 1 1 (pi / 2))\<lparr>m_alphaValuesCount := 20\<rparr>) (1 / 2) (1 / 8) < 1 / 2 \<and>
   2 * (2 * pi / real (unat (m_alphaValuesCount ((test_cfg 1 1 1 (pi / 2))\<lparr>m_alphaValuesCount := 20\<rparr>))))
     * sqrt (1 / 2 * (1 / 2) + 1 / 8 * (1 / 8))
     / V_MAX ((test_cfg 1 1 1 (pi / 2))\<lparr>m_alphaValuesCount := 20\<rparr>) < 1 / 2 \<and>
   1 / 2 \<le> spec_TIME_MISMATCH_TOLERANCE ((test_cfg 1 1 1 (pi / 2))\<lparr>m_alphaValuesCount := 20\<rparr>) (1 / 2) (1 / 8)"
proof -
  define r where "r = sqrt (1 / 2 * (1 / 2) + 1 / 8 * (1 / 8) :: real)"
  have lo: "1 / 2 < r" unfolding r_def by (rule real_less_rsqrt) (simp add: power2_eq_square)
  have hi: "r < 5 / 8" unfolding r_def by (rule real_less_lsqrt) (simp_all add: power2_eq_square)
  have "pi * r < 4 * (5 / 8)" using pi_less_4 hi lo by (intro mult_strict_mono) simp_all
  then have a: "2 * (2 * pi / 20) * r < 1 / 2" by simp
  have "3 * (1 / 2) < pi * r" using pi_gt_65_21 lo by (intro mult_strict_mono) simp_all
  then have b: "1 / 2 \<le> 2 * (2 * (2 * pi / 20) * r)" by simp
  show ?thesis
    using a b unfolding r_def
    by (simp add: TIME_MISMATCH_TOLERANCE_def spec_eps_distance_def spec_TIME_MISMATCH_TOLERANCE_def test_cfg_def)
qed

lemma twenty_axis:
  "axis_below_Tramp 1 epsd 0 1 (1 / 2) = Some (False, 1) \<and>
   axis_below_Tramp 1 epsd 1 0 (1 / 8) = Some (False, 1 / 2)"
proof -
  have "sqrt (1 / 4 :: real) = 1 / 2" by (intro sqrt_square_eq) simp_all
  then show ?thesis by (simp add: axis_below_Tramp_def eps_def Let_def)
qed

lemma twenty_code:
  "t_solve_direction ((test_cfg 1 1 1 (pi / 2))\<lparr>m_alphaValuesCount := 20\<rparr>) (1 / 2) (1 / 8) 0 = None"
  using twenty_tol
  by (simp add: t_solve_direction_def t_solve_with_def test_cfg_def Let_def twenty_axis)

lemma twenty_spec:
  "t_solve_with (spec_eps_distance ((test_cfg 1 1 1 (pi / 2))\<lparr>m_alphaValuesCount := 20\<rparr>) (1 / 2) (1 / 8))
     (spec_TIME_MISMATCH_TOLERANCE ((test_cfg 1 1 1 (pi / 2))\<lparr>m_alphaValuesCount := 20\<rparr>) (1 / 2) (1 / 8))
     ((test_cfg 1 1 1 (pi / 2))\<lparr>m_alphaValuesCount := 20\<rparr>) (1 / 2) (1 / 8) 0 = Some 1"
  using twenty_tol
  by (simp add: t_solve_with_def test_cfg_def Let_def twenty_axis)

section \<open>The claims\<close>

text \<open>
  C1 as stated: in the Newton branch \<^verbatim>\<open>getPathStepForDist\<close> returns a time within
  \<open>[0, T_ramp]\<close> whose recomputed distance is within \<open>0.001\<close> of the target, or
  fails. Refuted with ramp \<open>1\<close>, maximum speed \<open>0.11\<close>, current velocity
  \<open>(0.1, 0)\<close>, a direction of angle \<open>0\<close> and the target distance \<open>0.104836\<close>, below
  the distance \<open>0.105\<close> at the end of the ramp: the function succeeds with the time
  \<open>1.006\<close> and the step \<open>101\<close>, both after the end of the ramp.
\<close>

theorem getPathStepForDist_newton_counterexample:
  "newton_branch (test_cfg 1 (11 / 100) (1 / 10) 0) 0 (26209 / 250000) \<and>
   dist_trans_direction (test_cfg 1 (11 / 100) (1 / 10) 0) 0 (T_ramp (test_cfg 1 (11 / 100) (1 / 10) 0))
     = Fin (21 / 200) \<and>
   (0 :: real) \<le> 26209 / 250000 \<and> (26209 / 250000 :: real) \<le> 21 / 200 \<and>
   t_solved_for_dist (test_cfg 1 (11 / 100) (1 / 10) 0) 0 (26209 / 250000) = Inr (Fin (503 / 500)) \<and>
   \<not> (503 / 500 \<le> T_ramp (test_cfg 1 (11 / 100) (1 / 10) 0)) \<and>
   getPathStepForDist (test_cfg 1 (11 / 100) (1 / 10) 0) 0 (26209 / 250000) = Inr (Some 101) \<and>
   \<not> (PATH_TIME_STEP * real (unat (101 :: 16 word)) \<le> T_ramp (test_cfg 1 (11 / 100) (1 / 10) 0))"
proof -
  have D: "dist_trans_direction (test_cfg 1 (11 / 100) (1 / 10) 0) 0 (T_ramp (test_cfg 1 (11 / 100) (1 / 10) 0))
     = Fin (21 / 200)"
    using accel_calc[of 1] by (simp add: dist_trans_direction_def test_cfg_def Let_def)
  have T: "T_ramp (test_cfg 1 (11 / 100) (1 / 10) 0) = 1" by (simp add: test_cfg_def)
  have s: "\<not> (PATH_TIME_STEP * real (unat (101 :: 16 word)) \<le> 1)"
    by (simp add: PATH_TIME_STEP_def)
  show ?thesis
    using accel_branch D accel_t_solved accel_step s unfolding T by simp
qed

text \<open>
  C1, amended. In the Newton branch, when \<^verbatim>\<open>getPathStepForDist\<close> returns a step, the
  time \<open>t\<close> it has solved is finite and not negative and the step is the rounded
  quotient \<open>t / PATH_TIME_STEP\<close> as a \<^verbatim>\<open>uint16_t\<close>; and either the distance recomputed
  at \<open>t\<close> by the closed form differs from the target by less than \<open>0.001\<close>, or \<open>t\<close>
  is the value after the tenth update, which the loop does not test. No upper bound
  \<open>t \<le> T_ramp\<close> holds. (Otherwise the function fails the assertion on the derivative,
  or returns \<^verbatim>\<open>false\<close>.)
\<close>

theorem getPathStepForDist_newton:
  assumes nb: "newton_branch cfg k dst" and abc: "ramp_coefficients cfg k = (a, b, c)"
    and st: "getPathStepForDist cfg k dst = Inr (Some step)"
  shows "\<exists>t. t_solved_for_dist cfg k dst = Inr (Fin t) \<and> 0 \<le> t \<and>
           step = word_of_int (mrpt_round (t / PATH_TIME_STEP)) \<and>
           ((\<exists>f. calc_trans_distance_t_below_Tramp_abc (Fin t) a b c = Fin f \<and> \<bar>f - dst\<bar> < 1 / 1000) \<or>
            Fin t = (newton_update a b c dst ^^ 10) (Fin (T_ramp cfg * (6 / 10))))"
proof -
  from st obtain ts q where ts: "t_solved_for_dist cfg k dst = Inr ts" "ts \<ge> Fin 0"
    "ts / Fin PATH_TIME_STEP = Fin q" "step = word_of_int (mrpt_round q)"
    by (auto simp: getPathStepForDist_def split: sum.splits double.splits if_splits)
  have "PATH_TIME_STEP \<noteq> 0" by (simp add: PATH_TIME_STEP_def)
  with ts(3) obtain t where t: "ts = Fin t" "q = t / PATH_TIME_STEP"
    by (blast dest: fin_divideD)
  have t0: "0 \<le> t" using ts(2) unfolding t(1) by simp
  from ts(1) have "newton_loop 10 a b c dst (Fin (T_ramp cfg * (6 / 10))) = Inr (Fin t)"
    unfolding t_solved_newton[OF nb abc] t(1) .
  from newton_loop_result[OF this] ts t t0 show ?thesis by auto
qed

theorem getPathStepForDist_newton_witness:
  "newton_branch (test_cfg 1 (11 / 100) (1 / 10) 0) 0 (26209 / 250000) \<and>
   ramp_coefficients (test_cfg 1 (11 / 100) (1 / 10) 0) 0 = (1 / 10000, 1 / 500, 1 / 100) \<and>
   getPathStepForDist (test_cfg 1 (11 / 100) (1 / 10) 0) 0 (26209 / 250000) = Inr (Some 101) \<and>
   (\<exists>t. t_solved_for_dist (test_cfg 1 (11 / 100) (1 / 10) 0) 0 (26209 / 250000) = Inr (Fin t) \<and> 0 \<le> t \<and>
        (101 :: 16 word) = word_of_int (mrpt_round (t / PATH_TIME_STEP)) \<and>
        ((\<exists>f. calc_trans_distance_t_below_Tramp_abc (Fin t) (1 / 10000) (1 / 500) (1 / 100) = Fin f \<and>
              \<bar>f - 26209 / 250000\<bar> < 1 / 1000) \<or>
         Fin t = (newton_update (1 / 10000) (1 / 500) (1 / 100) (26209 / 250000) ^^ 10)
                    (Fin (T_ramp (test_cfg 1 (11 / 100) (1 / 10) 0) * (6 / 10)))))"
  using getPathStepForDist_newton[OF accel_branch accel_coefficients accel_step]
    accel_branch accel_coefficients accel_step
  by simp

text \<open>
  C2 as stated: the position-match tolerance of \<^verbatim>\<open>inverseMap_WS2TP\<close> is
  \<open>2 * (2 * pi / directionCount) * \<bar>(x, y)\<bar>\<close> and the time-mismatch tolerance is twice
  the position-match tolerance. Refuted on the loop body, which with these two values
  does not return what it returns with the constants of the source. With thirteen
  directions, the robot at rest, a direction along the \<open>y\<close> axis and the target
  \<open>(1, 0)\<close>, the degenerate test on the \<open>x\<close> axis passes in the source, whose
  tolerance \<open>4.2 pi / 13\<close> is above \<open>1\<close>, and the time is \<open>0\<close>; it fails with the
  tolerance \<open>4 pi / 13\<close>, and the time is \<open>- 1\<close>, no solution. With twenty
  directions, the robot moving at \<open>1\<close> along the \<open>x\<close> axis, a direction along the
  \<open>y\<close> axis and the target \<open>(1/2, 1/8)\<close>, the two axes are solved at the times \<open>1\<close>
  and \<open>1/2\<close>: the source, whose tolerance is about \<open>0.32\<close>, rejects the direction;
  with the double of the position-match tolerance, about \<open>0.65\<close>, the time is \<open>1\<close>.
\<close>

theorem tolerances_counterexample:
  "t_solve_direction ((test_cfg 1 1 0 (pi / 2))\<lparr>m_alphaValuesCount := 13\<rparr>) 1 0 0 = Some 0 \<and>
   t_solve_with (spec_eps_distance ((test_cfg 1 1 0 (pi / 2))\<lparr>m_alphaValuesCount := 13\<rparr>) 1 0)
     (spec_TIME_MISMATCH_TOLERANCE ((test_cfg 1 1 0 (pi / 2))\<lparr>m_alphaValuesCount := 13\<rparr>) 1 0)
     ((test_cfg 1 1 0 (pi / 2))\<lparr>m_alphaValuesCount := 13\<rparr>) 1 0 0 = Some (- 1) \<and>
   t_solve_direction ((test_cfg 1 1 1 (pi / 2))\<lparr>m_alphaValuesCount := 20\<rparr>) (1 / 2) (1 / 8) 0 = None \<and>
   t_solve_with (spec_eps_distance ((test_cfg 1 1 1 (pi / 2))\<lparr>m_alphaValuesCount := 20\<rparr>) (1 / 2) (1 / 8))
     (spec_TIME_MISMATCH_TOLERANCE ((test_cfg 1 1 1 (pi / 2))\<lparr>m_alphaValuesCount := 20\<rparr>) (1 / 2) (1 / 8))
     ((test_cfg 1 1 1 (pi / 2))\<lparr>m_alphaValuesCount := 20\<rparr>) (1 / 2) (1 / 8) 0 = Some 1"
  using thirteen_code thirteen_spec twenty_code twenty_spec by simp

text \<open>
  C2, amended. The loop body of \<^verbatim>\<open>inverseMap_WS2TP\<close> runs with the position-match
  tolerance \<open>2.1 * (2 * pi / directionCount) * \<bar>(x, y)\<bar>\<close> and the time-mismatch tolerance
  \<open>2 * (2 * pi / directionCount) * \<bar>(x, y)\<bar> / V_MAX\<close>, a distance divided by the maximum
  linear speed. The first decides the two degenerate per-axis tests: below the ramp,
  an axis whose velocity is and stays zero matches when \<open>\<bar>p\<bar>\<close> is below it; after the
  ramp, an axis whose final velocity is zero matches when the distance of \<open>p\<close> to the
  position at the end of the ramp is below it. The second reconciles the two per-axis
  times: when both axes are solved within the ramp, at the times \<open>tx\<close> and \<open>ty\<close>, the
  direction is rejected when \<open>\<bar>tx - ty\<bar>\<close> is above it and solved at \<open>tx\<close> otherwise.
\<close>

theorem tolerances:
  "t_solve_direction cfg x y k =
     t_solve_with ((21 / 10) * (2 * pi / real (unat (m_alphaValuesCount cfg))) * sqrt (x * x + y * y))
       (2 * (2 * pi / real (unat (m_alphaValuesCount cfg))) * sqrt (x * x + y * y) / V_MAX cfg)
       cfg x y k \<and>
   (\<bar>vf - vi\<bar> < eps \<and> \<bar>vi\<bar> < eps \<longrightarrow>
      axis_below_Tramp Tr (eps_distance cfg x y) vf vi p =
        Some (if \<bar>p\<bar> < (21 / 10) * (2 * pi / real (unat (m_alphaValuesCount cfg))) * sqrt (x * x + y * y)
              then (True, 0) else (False, - 1))) \<and>
   (\<bar>vf\<bar> < eps \<longrightarrow>
      axis_above_Tramp Tr TRtwo (eps_distance cfg x y) vf vi p s =
        (if \<bar>p - (vi * Tr + Tr * Tr * TRtwo * (vf - vi))\<bar>
              < (21 / 10) * (2 * pi / real (unat (m_alphaValuesCount cfg))) * sqrt (x * x + y * y)
         then (True, snd s) else (fst s, - 1))) \<and>
   (axis_below_Tramp (T_ramp cfg) (eps_distance cfg x y)
        (V_MAX cfg * cos (index2alpha cfg k)) (vx (curVelLocal cfg)) x = Some (False, tx) \<and>
    axis_below_Tramp (T_ramp cfg) (eps_distance cfg x y)
        (V_MAX cfg * sin (index2alpha cfg k)) (vy (curVelLocal cfg)) y = Some (False, ty) \<and>
    0 \<le> tx \<and> tx \<le> T_ramp cfg \<and> 0 \<le> ty \<and> ty \<le> T_ramp cfg \<longrightarrow>
      t_solve_direction cfg x y k =
        (if \<bar>tx - ty\<bar>
              > 2 * (2 * pi / real (unat (m_alphaValuesCount cfg))) * sqrt (x * x + y * y) / V_MAX cfg
         then None else Some tx))"
proof -
  have e: "eps_distance cfg x y
             = (21 / 10) * (2 * pi / real (unat (m_alphaValuesCount cfg))) * sqrt (x * x + y * y)"
    by (simp add: eps_distance_def)
  have t: "TIME_MISMATCH_TOLERANCE cfg x y
             = 2 * (2 * pi / real (unat (m_alphaValuesCount cfg))) * sqrt (x * x + y * y) / V_MAX cfg"
    by (simp add: TIME_MISMATCH_TOLERANCE_def)
  have c1: "t_solve_direction cfg x y k =
     t_solve_with ((21 / 10) * (2 * pi / real (unat (m_alphaValuesCount cfg))) * sqrt (x * x + y * y))
       (2 * (2 * pi / real (unat (m_alphaValuesCount cfg))) * sqrt (x * x + y * y) / V_MAX cfg)
       cfg x y k"
    unfolding t_solve_direction_def e t ..
  have c2: "axis_below_Tramp Tr (eps_distance cfg x y) vf vi p =
        Some (if \<bar>p\<bar> < (21 / 10) * (2 * pi / real (unat (m_alphaValuesCount cfg))) * sqrt (x * x + y * y)
              then (True, 0) else (False, - 1))"
    if "\<bar>vf - vi\<bar> < eps \<and> \<bar>vi\<bar> < eps"
    unfolding e using that by (simp add: axis_below_Tramp_def)
  have c3: "axis_above_Tramp Tr TRtwo (eps_distance cfg x y) vf vi p s =
        (if \<bar>p - (vi * Tr + Tr * Tr * TRtwo * (vf - vi))\<bar>
              < (21 / 10) * (2 * pi / real (unat (m_alphaValuesCount cfg))) * sqrt (x * x + y * y)
         then (True, snd s) else (fst s, - 1))"
    if "\<bar>vf\<bar> < eps"
    unfolding e using that by (simp add: axis_above_Tramp_def Let_def)
  have c4: "t_solve_direction cfg x y k =
        (if \<bar>tx - ty\<bar>
              > 2 * (2 * pi / real (unat (m_alphaValuesCount cfg))) * sqrt (x * x + y * y) / V_MAX cfg
         then None else Some tx)"
    if "axis_below_Tramp (T_ramp cfg) (eps_distance cfg x y)
        (V_MAX cfg * cos (index2alpha cfg k)) (vx (curVelLocal cfg)) x = Some (False, tx) \<and>
    axis_below_Tramp (T_ramp cfg) (eps_distance cfg x y)
        (V_MAX cfg * sin (index2alpha cfg k)) (vy (curVelLocal cfg)) y = Some (False, ty) \<and>
    0 \<le> tx \<and> tx \<le> T_ramp cfg \<and> 0 \<le> ty \<and> ty \<le> T_ramp cfg"
    unfolding t_solve_direction_def t_solve_with_def Let_def t[symmetric] using that by simp
  show ?thesis using c1 c2 c3 c4 by blast
qed

theorem tolerances_witness:
  "\<bar>0 - 0 :: real\<bar> < eps \<and> \<bar>0 :: real\<bar> < eps \<and>
   axis_below_Tramp 1 (eps_distance ((test_cfg 1 1 0 (pi / 2))\<lparr>m_alphaValuesCount := 13\<rparr>) 1 0) 0 0 1
     = Some (True, 0) \<and>
   axis_above_Tramp 1 (1 / 2) (eps_distance ((test_cfg 1 1 0 (pi / 2))\<lparr>m_alphaValuesCount := 13\<rparr>) 1 0) 0 0 1 (False, - 1)
     = (True, - 1) \<and>
   axis_below_Tramp (T_ramp ((test_cfg 1 1 1 (pi / 2))\<lparr>m_alphaValuesCount := 20\<rparr>))
     (eps_distance ((test_cfg 1 1 1 (pi / 2))\<lparr>m_alphaValuesCount := 20\<rparr>) (1 / 2) (1 / 8))
     (V_MAX ((test_cfg 1 1 1 (pi / 2))\<lparr>m_alphaValuesCount := 20\<rparr>)
        * cos (index2alpha ((test_cfg 1 1 1 (pi / 2))\<lparr>m_alphaValuesCount := 20\<rparr>) 0))
     (vx (curVelLocal ((test_cfg 1 1 1 (pi / 2))\<lparr>m_alphaValuesCount := 20\<rparr>))) (1 / 2) = Some (False, 1) \<and>
   axis_below_Tramp (T_ramp ((test_cfg 1 1 1 (pi / 2))\<lparr>m_alphaValuesCount := 20\<rparr>))
     (eps_distance ((test_cfg 1 1 1 (pi / 2))\<lparr>m_alphaValuesCount := 20\<rparr>) (1 / 2) (1 / 8))
     (V_MAX ((test_cfg 1 1 1 (pi / 2))\<lparr>m_alphaValuesCount := 20\<rparr>)
        * sin (index2alpha ((test_cfg 1 1 1 (pi / 2))\<lparr>m_alphaValuesCount := 20\<rparr>) 0))
     (vy (curVelLocal ((test_cfg 1 1 1 (pi / 2))\<lparr>m_alphaValuesCount := 20\<rparr>))) (1 / 8) = Some (False, 1 / 2) \<and>
   (1 :: real) \<le> T_ramp ((test_cfg 1 1 1 (pi / 2))\<lparr>m_alphaValuesCount := 20\<rparr>) \<and>
   t_solve_direction ((test_cfg 1 1 1 (pi / 2))\<lparr>m_alphaValuesCount := 20\<rparr>) (1 / 2) (1 / 8) 0 = None"
proof -
  define A where "A = (test_cfg 1 1 0 (pi / 2))\<lparr>m_alphaValuesCount := 13\<rparr>"
  define B where "B = (test_cfg 1 1 1 (pi / 2))\<lparr>m_alphaValuesCount := 20\<rparr>"
  have h: "\<bar>0 - 0 :: real\<bar> < eps \<and> \<bar>0 :: real\<bar> < eps" by (simp add: eps_def)
  have h': "\<bar>0 :: real\<bar> < eps" by (simp add: eps_def)
  have eA: "1 < (21 / 10) * (2 * pi / real (unat (m_alphaValuesCount A))) * sqrt (1 * 1 + 0 * 0)"
    using thirteen_eps unfolding A_def by (simp add: eps_distance_def)
  note thA = tolerances[where cfg = A and x = 1 and y = 0 and vf = 0 and vi = 0 and Tr = 1
                         and p = 1 and TRtwo = "1 / 2" and s = "(False, - 1)"]
  have a1: "axis_below_Tramp 1 (eps_distance A 1 0) 0 0 1 = Some (True, 0)"
    using thA h eA by simp
  have a2: "axis_above_Tramp 1 (1 / 2) (eps_distance A 1 0) 0 0 1 (False, - 1) = (True, - 1)"
    using thA h' eA by simp
  have bx: "axis_below_Tramp (T_ramp B) (eps_distance B (1 / 2) (1 / 8))
     (V_MAX B * cos (index2alpha B 0)) (vx (curVelLocal B)) (1 / 2) = Some (False, 1)"
    and by': "axis_below_Tramp (T_ramp B) (eps_distance B (1 / 2) (1 / 8))
     (V_MAX B * sin (index2alpha B 0)) (vy (curVelLocal B)) (1 / 8) = Some (False, 1 / 2)"
    and TB: "(1 :: real) \<le> T_ramp B"
    using twenty_axis unfolding B_def by (simp_all add: test_cfg_def)
  have b: "t_solve_direction B (1 / 2) (1 / 8) 0 = None"
  proof -
    have "t_solve_direction B (1 / 2) (1 / 8) 0 =
        (if \<bar>1 - 1 / 2 :: real\<bar>
              > 2 * (2 * pi / real (unat (m_alphaValuesCount B))) * sqrt (1 / 2 * (1 / 2) + 1 / 8 * (1 / 8)) / V_MAX B
         then None else Some 1)"
      by (rule mp[OF tolerances[where cfg = B and x = "1 / 2" and y = "1 / 8" and k = 0
                       and tx = 1 and ty = "1 / 2", THEN conjunct2, THEN conjunct2, THEN conjunct2]])
         (use bx by' TB in simp)
    moreover have "2 * (2 * pi / real (unat (m_alphaValuesCount B))) * sqrt (1 / 2 * (1 / 2) + 1 / 8 * (1 / 8)) / V_MAX B < 1 / 2"
      using twenty_tol unfolding B_def by blast
    ultimately show ?thesis by (simp only: if_P abs_if split: if_splits) simp
  qed
  show ?thesis using h a1 a2 bx by' TB b unfolding A_def B_def by blast
qed

text \<open>
  C3 fails on the code. With ramp \<open>1\<close>, maximum speed \<open>1\<close>, the robot moving at
  \<open>0.5\<close> against a direction of angle \<open>0\<close>, the coefficients are \<open>a = 9/4\<close>,
  \<open>b = - 3/2\<close>, \<open>c = 1/4\<close>: the argument of the logarithm at time \<open>0\<close> is \<open>0\<close>, the
  logarithm is minus infinity and its factor \<open>a c - b\<^sup>2/4\<close> is \<open>0\<close>, so
  \<^verbatim>\<open>getPathDist\<close> is a NaN at every step and no two of its values are ordered.
  (Where \<^verbatim>\<open>getPathDist\<close> is finite at some step, \<open>getPathDist_mono\<close> above proves
  what C3 says.)
\<close>

theorem getPathDist_reversal_nan:
  "getPathDist (test_cfg 1 1 (- (1 / 2)) 0) 0 step = NaN"
proof -
  have "sqrt (9 / 4 :: real) = 3 / 2" by (intro sqrt_square_eq) simp_all
  then have r: "c_sqrt (Fin (9 / 4)) = Fin (3 / 2)" by simp
  have "sqrt (1 / 4 :: real) = 1 / 2" by (intro sqrt_square_eq) simp_all
  then have sc: "c_sqrt (Fin (1 / 4)) = Fin (1 / 2)" by simp
  have l0: "c_log (Fin 1 / c_sqrt (Fin (9 / 4))
                   * (Fin (- (3 / 2)) + c_sqrt (Fin (9 / 4)) * c_sqrt (Fin (1 / 4)) * Fin 2) * Fin (1 / 2)) = NInf"
    unfolding r sc by simp
  have p: "(0::real) < (9 / 4) powr (3 / 2)" by simp
  have t0: "Fin 1 / c_pow (Fin (9 / 4)) (3 / 2) * NInf
              * (Fin (9 / 4) * Fin (1 / 4) - (Fin (- (3 / 2)) * Fin (- (3 / 2))) * Fin (1 / 4)) = NaN"
    using p by simp
  have abc: "calc_trans_distance_t_below_Tramp_abc t (9 / 4) (- (3 / 2)) (1 / 4) = NaN" for t
    unfolding calc_trans_distance_t_below_Tramp_abc_def Let_def l0 t0
    by simp
  have "calc_trans_distance_t_below_Tramp (3 / 4) 0 (- (1 / 2)) 0 t =
     calc_trans_distance_t_below_Tramp_abc (Fin t) ((3 / 4 * (3 / 4)) * 4 + (0 * 0) * 4)
       (3 / 4 * (- (1 / 2)) * 4 + 0 * 0 * 4) (- (1 / 2) * (- (1 / 2)) + 0 * 0)" for t
    by (rule calc_trans_general) (simp_all add: eps_def)
  then have calc: "calc_trans_distance_t_below_Tramp (3 / 4) 0 (- (1 / 2)) 0 t = NaN" for t
    using abc[of "Fin t"] by simp
  show ?thesis
    by (simp add: getPathDist_def test_cfg_def Let_def calc)
qed




text \<open>
  C5. With a positive maximum angular speed, the heading of \<^verbatim>\<open>getPathPose\<close> at the time
  \<open>t = PATH_TIME_STEP * step\<close> never exceeds the angle \<open>dir\<close> of the direction in
  magnitude; it is \<open>t * dir / T_rot\<close> with \<open>T_rot = \<bar>dir\<bar> / W_MAX\<close> while
  \<open>t < T_rot\<close> and \<open>dir\<close> from \<open>T_rot\<close> on; and at a later step it is nearer to
  \<open>dir\<close>, on the same side, never beyond it.
\<close>

theorem getPathPose_heading:
  assumes W: "0 < W_MAX cfg"
  shows "\<bar>pose_phi (getPathPose cfg k step)\<bar> \<le> \<bar>index2alpha cfg k\<bar> \<and>
     (PATH_TIME_STEP * real (unat step) < \<bar>index2alpha cfg k\<bar> / W_MAX cfg \<longrightarrow>
        pose_phi (getPathPose cfg k step) =
          PATH_TIME_STEP * real (unat step) * index2alpha cfg k / (\<bar>index2alpha cfg k\<bar> / W_MAX cfg)) \<and>
     (\<bar>index2alpha cfg k\<bar> / W_MAX cfg \<le> PATH_TIME_STEP * real (unat step) \<longrightarrow>
        pose_phi (getPathPose cfg k step) = index2alpha cfg k) \<and>
     (\<forall>step'. step \<le> step' \<longrightarrow>
        (0 \<le> index2alpha cfg k \<longrightarrow>
           pose_phi (getPathPose cfg k step) \<le> pose_phi (getPathPose cfg k step') \<and>
           pose_phi (getPathPose cfg k step') \<le> index2alpha cfg k) \<and>
        (index2alpha cfg k \<le> 0 \<longrightarrow>
           index2alpha cfg k \<le> pose_phi (getPathPose cfg k step') \<and>
           pose_phi (getPathPose cfg k step') \<le> pose_phi (getPathPose cfg k step)))"
proof -
  define dir where "dir = index2alpha cfg k"
  define W where "W = W_MAX cfg"
  define h where "h = (\<lambda>t::real. if t < \<bar>dir\<bar> / W then t * dir / (\<bar>dir\<bar> / W) else dir)"
  have phi: "pose_phi (getPathPose cfg k s) = h (PATH_TIME_STEP * real (unat s))" for s
    by (simp add: getPathPose_def Let_def h_def dir_def W_def)
  have Wpos: "0 < W" using W by (simp add: W_def)
  have hpos: "h t = (if t * W < dir then t * W else dir)" if "0 \<le> dir" "0 \<le> t" for t
  proof (cases "dir = 0")
    case True
    have "0 \<le> t * W" using that Wpos by simp
    then show ?thesis using True that by (simp add: h_def)
  next
    case False
    then show ?thesis using that Wpos by (auto simp: h_def field_simps)
  qed
  have hneg: "h t = (if t * W < - dir then - (t * W) else dir)" if "dir \<le> 0" "0 \<le> t" for t
  proof (cases "dir = 0")
    case True
    have "0 \<le> t * W" using that Wpos by simp
    then show ?thesis using True that by (simp add: h_def)
  next
    case False
    then show ?thesis using that Wpos by (auto simp: h_def field_simps)
  qed
  have bound: "\<bar>h t\<bar> \<le> \<bar>dir\<bar>" if "0 \<le> t" for t
  proof (cases "0 \<le> dir")
    case True
    have "0 \<le> t * W" using that Wpos by simp
    then show ?thesis using True that by (simp add: hpos)
  next
    case False
    have "0 \<le> t * W" using that Wpos by simp
    then show ?thesis using False that by (simp add: hneg)
  qed
  have mono_pos: "h t \<le> h t' \<and> h t' \<le> dir" if "t \<le> t'" "0 \<le> dir" "0 \<le> t" for t t'
  proof -
    have "t * W \<le> t' * W" using that Wpos by simp
    then show ?thesis using that by (auto simp: hpos)
  qed
  have mono_neg: "dir \<le> h t' \<and> h t' \<le> h t" if "t \<le> t'" "dir \<le> 0" "0 \<le> t" for t t'
  proof -
    have "t * W \<le> t' * W" using that Wpos by simp
    then show ?thesis using that by (auto simp: hneg)
  qed
  have tmono: "PATH_TIME_STEP * real (unat s) \<le> PATH_TIME_STEP * real (unat s')" if "s \<le> s'" for s s' :: "16 word"
  proof -
    have "unat s \<le> unat s'" using that by (simp only: word_le_nat_alt)
    then have "real (unat s) \<le> real (unat s')" by (simp only: of_nat_le_iff)
    moreover have "0 \<le> PATH_TIME_STEP" by (simp add: PATH_TIME_STEP_def)
    ultimately show ?thesis by (rule mult_left_mono)
  qed
  have t0: "0 \<le> PATH_TIME_STEP * real (unat s)" for s :: "16 word"
  proof -
    have "0 \<le> PATH_TIME_STEP" by (simp add: PATH_TIME_STEP_def)
    moreover have "0 \<le> real (unat s)" by (rule of_nat_0_le_iff)
    ultimately show ?thesis by (rule mult_nonneg_nonneg)
  qed
  show ?thesis
    unfolding phi dir_def[symmetric] W_def[symmetric]
    using bound[OF t0] mono_pos[OF tmono _ t0] mono_neg[OF tmono _ t0]
    by (auto simp: h_def)
qed

theorem getPathPose_heading_witness:
  "0 < W_MAX (test_cfg 1 1 0 1) \<and>
   pose_phi (getPathPose (test_cfg 1 1 0 1) 0 50) = 1 / 2 \<and>
   pose_phi (getPathPose (test_cfg 1 1 0 1) 0 50) \<le> pose_phi (getPathPose (test_cfg 1 1 0 1) 0 70) \<and>
   pose_phi (getPathPose (test_cfg 1 1 0 1) 0 70) \<le> 1"
proof -
  have W: "0 < W_MAX (test_cfg 1 1 0 1)" by (simp add: test_cfg_def)
  have le: "(50 :: 16 word) \<le> 70" by simp
  have t: "PATH_TIME_STEP * real (unat (50 :: 16 word)) = 1 / 2" by (simp add: PATH_TIME_STEP_def)
  have dir: "index2alpha (test_cfg 1 1 0 1) 0 = 1" by (simp add: test_cfg_def)
  have Wv: "W_MAX (test_cfg 1 1 0 1) = 1" by (simp add: test_cfg_def)
  note th = getPathPose_heading [OF W, of 0 50]
  from th have "pose_phi (getPathPose (test_cfg 1 1 0 1) 0 50) = 1 / 2"
    unfolding t dir Wv by simp
  moreover from th le have
    "pose_phi (getPathPose (test_cfg 1 1 0 1) 0 50) \<le> pose_phi (getPathPose (test_cfg 1 1 0 1) 0 70) \<and>
     pose_phi (getPathPose (test_cfg 1 1 0 1) 0 70) \<le> 1"
    unfolding dir by simp
  ultimately show ?thesis using W by simp
qed


text \<open>
  C6 as stated: for a target distance not below the distance at the end of the ramp,
  \<^verbatim>\<open>getPathStepForDist\<close> returns the rounded quotient \<open>t / PATH_TIME_STEP\<close>. Refuted
  for a robot at rest, ramp \<open>1\<close>, maximum speed \<open>1\<close> and the distance \<open>1000\<close>: the
  rounded quotient is \<open>100050\<close>, the \<^verbatim>\<open>uint16_t\<close> step returned is \<open>34514\<close>.
\<close>

theorem getPathStepForDist_coasting_counterexample:
  "dist_trans_direction (test_cfg 1 1 0 0) 0 (T_ramp (test_cfg 1 1 0 0)) = Fin (1 / 2) \<and>
   (1 / 2 :: real) \<le> 1000 \<and>
   getPathStepForDist (test_cfg 1 1 0 0) 0 1000 = Inr (Some 34514) \<and>
   mrpt_round ((T_ramp (test_cfg 1 1 0 0) + (1000 - 1 / 2) / V_MAX (test_cfg 1 1 0 0)) / PATH_TIME_STEP) = 100050"
proof -
  have D: "dist_trans_direction (test_cfg 1 1 0 0) 0 (T_ramp (test_cfg 1 1 0 0)) = Fin (1 / 2)"
    using calc_rest by (simp add: dist_trans_direction_def test_cfg_def Let_def)
  have ts: "t_solved_for_dist (test_cfg 1 1 0 0) 0 1000 = Inr (Fin (2001 / 2))"
    using calc_rest by (simp add: t_solved_for_dist_def test_cfg_def Let_def)
  have r: "mrpt_round ((2001 / 2) / PATH_TIME_STEP) = 100050"
    by (simp add: mrpt_round_def PATH_TIME_STEP_def)
  have w: "(word_of_int 100050 :: 16 word) = 34514" by simp
  have st: "getPathStepForDist (test_cfg 1 1 0 0) 0 1000 = Inr (Some 34514)"
    using getPathStepForDist_Fin[OF ts] r w by simp
  have r': "mrpt_round ((T_ramp (test_cfg 1 1 0 0) + (1000 - 1 / 2) / V_MAX (test_cfg 1 1 0 0)) / PATH_TIME_STEP) = 100050"
    by (simp add: mrpt_round_def PATH_TIME_STEP_def test_cfg_def)
  show ?thesis using D st r' by simp
qed

text \<open>
  C6, amended. With a positive ramp duration and a positive maximum speed, for a target
  distance \<open>dst\<close> not below the finite distance \<open>D\<close> at the end of the ramp,
  \<^verbatim>\<open>getPathStepForDist\<close> succeeds with \<open>t = T_ramp + (dst - D) / V_MAX\<close>; the step it
  returns is the rounded quotient \<open>t / PATH_TIME_STEP\<close> reduced modulo \<open>2^16\<close>, which is
  the rounded quotient itself when that is below \<open>2^16\<close>; and \<open>t\<close> is not before the end
  of the ramp and the coasting distance at \<open>t\<close> is \<open>dst\<close>.
\<close>

theorem getPathStepForDist_coasting:
  assumes T: "0 < T_ramp cfg" and V: "0 < V_MAX cfg"
    and D: "dist_trans_direction cfg k (T_ramp cfg) = Fin D"
    and dst: "D \<le> dst"
  shows "t_solved_for_dist cfg k dst = Inr (Fin (T_ramp cfg + (dst - D) / V_MAX cfg)) \<and>
     getPathStepForDist cfg k dst =
       Inr (Some (word_of_int (mrpt_round ((T_ramp cfg + (dst - D) / V_MAX cfg) / PATH_TIME_STEP)))) \<and>
     (\<forall>step. getPathStepForDist cfg k dst = Inr (Some step) \<and>
         mrpt_round ((T_ramp cfg + (dst - D) / V_MAX cfg) / PATH_TIME_STEP) < 2 ^ 16 \<longrightarrow>
         uint step = mrpt_round ((T_ramp cfg + (dst - D) / V_MAX cfg) / PATH_TIME_STEP)) \<and>
     T_ramp cfg \<le> T_ramp cfg + (dst - D) / V_MAX cfg \<and>
     dist_trans_direction cfg k (T_ramp cfg + (dst - D) / V_MAX cfg) = Fin dst"
proof -
  define t where "t = T_ramp cfg + (dst - D) / V_MAX cfg"
  have ge: "T_ramp cfg \<le> t" using V dst by (simp add: t_def)
  have t0: "0 \<le> t" using ge T by simp
  define k2 where "k2 = (V_MAX cfg * cos (index2alpha cfg k) - vx (curVelLocal cfg)) * (1 / (2 * T_ramp cfg))"
  define k4 where "k4 = (V_MAX cfg * sin (index2alpha cfg k) - vy (curVelLocal cfg)) * (1 / (2 * T_ramp cfg))"
  have calc: "calc_trans_distance_t_below_Tramp k2 k4 (vx (curVelLocal cfg)) (vy (curVelLocal cfg)) (T_ramp cfg) = Fin D"
    using D unfolding dist_trans_direction_def Let_def k2_def[symmetric] k4_def[symmetric]
    by simp
  have ts: "t_solved_for_dist cfg k dst = Inr (Fin t)"
    unfolding t_solved_for_dist_def Let_def k2_def[symmetric] k4_def[symmetric] t_def calc
    using dst V by simp
  have st: "getPathStepForDist cfg k dst = Inr (Some (word_of_int (mrpt_round (t / PATH_TIME_STEP))))"
    using ts t0 by (rule getPathStepForDist_Fin)
  have r0: "0 \<le> mrpt_round (t / PATH_TIME_STEP)"
  proof -
    have "0 \<le> t / PATH_TIME_STEP" using t0 by (simp add: PATH_TIME_STEP_def)
    then have "round (0::real) \<le> round (t / PATH_TIME_STEP)" by (rule round_mono)
    then show ?thesis by (simp add: mrpt_round_def)
  qed
  have u: "uint (word_of_int (mrpt_round (t / PATH_TIME_STEP)) :: 16 word) = mrpt_round (t / PATH_TIME_STEP)"
    if "mrpt_round (t / PATH_TIME_STEP) < 2 ^ 16"
    using that r0 by (simp add: uint_word_of_int take_bit_int_eq_self)
  have inv: "dist_trans_direction cfg k t = Fin dst"
    unfolding dist_trans_direction_def Let_def k2_def[symmetric] k4_def[symmetric] calc
    using ge V by (simp add: t_def)
  show ?thesis
    unfolding t_def[symmetric] using ts st u ge inv by auto
qed

theorem getPathStepForDist_coasting_witness:
  "0 < T_ramp (test_cfg 1 1 0 0) \<and> 0 < V_MAX (test_cfg 1 1 0 0) \<and>
   dist_trans_direction (test_cfg 1 1 0 0) 0 (T_ramp (test_cfg 1 1 0 0)) = Fin (1 / 2) \<and>
   (1 / 2 :: real) \<le> 2 \<and>
   getPathStepForDist (test_cfg 1 1 0 0) 0 2 = Inr (Some 250) \<and>
   dist_trans_direction (test_cfg 1 1 0 0) 0 (5 / 2) = Fin 2"
proof -
  have T: "0 < T_ramp (test_cfg 1 1 0 0)" and V: "0 < V_MAX (test_cfg 1 1 0 0)"
    by (simp_all add: test_cfg_def)
  have D: "dist_trans_direction (test_cfg 1 1 0 0) 0 (T_ramp (test_cfg 1 1 0 0)) = Fin (1 / 2)"
    using calc_rest by (simp add: dist_trans_direction_def test_cfg_def Let_def)
  have le: "(1 / 2 :: real) \<le> 2" by simp
  have tv: "T_ramp (test_cfg 1 1 0 0) + (2 - 1 / 2) / V_MAX (test_cfg 1 1 0 0) = 5 / 2"
    by (simp add: test_cfg_def)
  have r: "(word_of_int (mrpt_round ((5 / 2) / PATH_TIME_STEP)) :: 16 word) = 250"
    by (simp add: mrpt_round_def PATH_TIME_STEP_def)
  note th = getPathStepForDist_coasting [OF T V D le]
  from th have "getPathStepForDist (test_cfg 1 1 0 0) 0 2 = Inr (Some 250)"
    unfolding tv r by simp
  moreover from th have "dist_trans_direction (test_cfg 1 1 0 0) 0 (5 / 2) = Fin 2"
    unfolding tv by simp
  ultimately show ?thesis using T V D by simp
qed

text \<open>
  C7 fails on the code. With the two opposite directions, ramp \<open>1\<close>, maximum speed
  \<open>1/2\<close>, the robot moving at \<open>(0, 1/2)\<close> and the target \<open>(0, 1/8)\<close>, both directions
  have a consistent solution time that is not negative, \<open>1/2\<close> for direction \<open>0\<close> and
  \<open>1/4\<close> for direction \<open>1\<close>. The path of direction \<open>0\<close> goes up the \<open>y\<close> axis,
  never back, from the origin to the target, which it reaches at step \<open>50\<close>: its
  travelled distance is \<open>1/8\<close>, as for direction \<open>1\<close>, and of the two the lower index
  \<open>0\<close> is the one to return. The distance that the code computes for direction \<open>0\<close>
  is a NaN, the logarithm at \<open>0\<close> times \<open>0\<close>, the comparison with the running
  minimum fails, and \<^verbatim>\<open>inverseMap_WS2TP\<close> returns direction \<open>1\<close>. (Among the
  directions whose distance is not a NaN, \<open>inverseMap_WS2TP_scan\<close> above proves what
  C7 says.)
\<close>

theorem inverseMap_WS2TP_tie:
  "t_solve_direction opposite_cfg 0 (1 / 8) 0 = Some (1 / 2) \<and>
   t_solve_direction opposite_cfg 0 (1 / 8) 1 = Some (1 / 4) \<and>
   pose_x (getPathPose opposite_cfg 0 50) = 0 \<and>
   pose_y (getPathPose opposite_cfg 0 50) = 1 / 8 \<and>
   (\<forall>s s'. s \<le> s' \<and> s' \<le> 50 \<longrightarrow>
      pose_x (getPathPose opposite_cfg 0 s) = 0 \<and>
      pose_y (getPathPose opposite_cfg 0 s) \<le> pose_y (getPathPose opposite_cfg 0 s')) \<and>
   candidate opposite_cfg 0 (1 / 8) 0 = Some NaN \<and>
   candidate opposite_cfg 0 (1 / 8) 1 = Some (Fin (1 / 8)) \<and>
   inverseMap_WS2TP opposite_cfg 0 (1 / 8) = Inr (Some (1, Fin (1 / 8)))"
proof -
  have p50: "pose_x (getPathPose opposite_cfg 0 50) = 0 \<and> pose_y (getPathPose opposite_cfg 0 50) = 1 / 8"
    using opposite_pose[of 50] by (simp add: PATH_TIME_STEP_def)
  have mono: "pose_x (getPathPose opposite_cfg 0 s) = 0 \<and>
      pose_y (getPathPose opposite_cfg 0 s) \<le> pose_y (getPathPose opposite_cfg 0 s')"
    if le: "s \<le> s'" and s': "s' \<le> 50" for s s' :: "16 word"
  proof -
    define u where "u = PATH_TIME_STEP * real (unat s)"
    define u' where "u' = PATH_TIME_STEP * real (unat s')"
    have s: "s \<le> 50" using le s' by simp
    have "unat s \<le> unat s'" using le by (simp only: word_le_nat_alt)
    then have "real (unat s) \<le> real (unat s')" by (simp only: of_nat_le_iff)
    moreover have "0 \<le> PATH_TIME_STEP" by (simp add: PATH_TIME_STEP_def)
    ultimately have uu: "u \<le> u'" unfolding u_def u'_def by (rule mult_left_mono)
    have b: "u \<le> 1 / 2" "u' \<le> 1 / 2"
      using opposite_pose[OF s] opposite_pose[OF s'] unfolding u_def u'_def by simp_all
    have "0 \<le> (u' - u) * (1 - u - u')" using uu b by (intro mult_nonneg_nonneg) simp_all
    then have "u * (1 / 2) - u * u * (1 / 2) \<le> u' * (1 / 2) - u' * u' * (1 / 2)"
      by (simp add: algebra_simps)
    then show ?thesis
      using opposite_pose[OF s] opposite_pose[OF s'] unfolding u_def u'_def by simp
  qed
  show ?thesis
    using opposite_t_solve p50 mono opposite_candidate opposite_inverseMap by blast
qed

theorem inverseMap_WS2TP_tie_witness:
  "candidate opposite_cfg 0 (1 / 8) 0 = Some NaN \<and>
   (50 :: 16 word) \<le> 50 \<and>
   pose_y (getPathPose opposite_cfg 0 50) = 1 / 8 \<and>
   inverseMap_WS2TP opposite_cfg 0 (1 / 8) = Inr (Some (1, Fin (1 / 8)))"
  using inverseMap_WS2TP_tie by simp

text \<open>
  C8. At the origin \<^verbatim>\<open>inverseMap_WS2TP\<close> fails its entry assertion, whatever the
  configuration and the current velocity: it returns no solution \<open>(k, d)\<close>.
\<close>

theorem inverseMap_WS2TP_origin:
  "inverseMap_WS2TP cfg 0 0 = Inl AssertionFailed \<and>
   (\<forall>k d. inverseMap_WS2TP cfg 0 0 \<noteq> Inr (Some (k, d)))"
  by (simp add: inverseMap_WS2TP_def)

theorem inverseMap_WS2TP_origin_witness:
  "inverseMap_WS2TP (test_cfg 1 1 0 0) 0 0 = Inl AssertionFailed"
  by (rule conjunct1 [OF inverseMap_WS2TP_origin])

text \<open>
  C9. \<^verbatim>\<open>PTG_IsIntoDomain\<close> is true exactly when \<^verbatim>\<open>inverseMap_WS2TP\<close> finds a solution
  for the same point under the same configuration.
\<close>

theorem PTG_IsIntoDomain_iff:
  "(PTG_IsIntoDomain cfg x y = Inr True) = (\<exists>k d. inverseMap_WS2TP cfg x y = Inr (Some (k, d)))"
  by (auto simp: PTG_IsIntoDomain_def split: sum.splits option.splits)

theorem PTG_IsIntoDomain_iff_witness:
  "PTG_IsIntoDomain (test_cfg 1 1 0 0) 10 0 = Inr True \<and>
   inverseMap_WS2TP (test_cfg 1 1 0 0) 10 0 = Inr (Some (0, Fin 9))"
proof -
  have "\<exists>k d. inverseMap_WS2TP (test_cfg 1 1 0 0) 10 0 = Inr (Some (k, d))"
    using inverseMap_rest1 by blast
  then have "PTG_IsIntoDomain (test_cfg 1 1 0 0) 10 0 = Inr True"
    by (rule iffD2 [OF PTG_IsIntoDomain_iff])
  then show ?thesis using inverseMap_rest1 by simp
qed

text \<open>
  C10. \<^verbatim>\<open>updateCurrentRobotVel\<close> changes the stored current velocity only: afterwards the
  ramp duration, the maximum linear and angular speeds and the turning radius reference
  (and the members of the base class) are what they were, and the stored velocity is the
  argument.
\<close>

theorem updateCurrentRobotVel_frame:
  "T_ramp (updateCurrentRobotVel cfg v) = T_ramp cfg \<and>
   V_MAX (updateCurrentRobotVel cfg v) = V_MAX cfg \<and>
   W_MAX (updateCurrentRobotVel cfg v) = W_MAX cfg \<and>
   turningRadiusReference (updateCurrentRobotVel cfg v) = turningRadiusReference cfg \<and>
   m_alphaValuesCount (updateCurrentRobotVel cfg v) = m_alphaValuesCount cfg \<and>
   refDistance (updateCurrentRobotVel cfg v) = refDistance cfg \<and>
   index2alpha (updateCurrentRobotVel cfg v) = index2alpha cfg \<and>
   curVelLocal (updateCurrentRobotVel cfg v) = v"
  by (simp add: updateCurrentRobotVel_def)


end
